theory Spec2Isabelle
  imports Main
begin

section \<open>JavaScript string helpers used by the SDK and the worker\<close>

text \<open>
  \<open>String.prototype.split\<close> with a one-character separator: the result always has at
  least one element (\<open>"".split('/')\<close> is \<open>[""]\<close>), and empty segments are kept.
\<close>

fun split :: "char \<Rightarrow> string \<Rightarrow> string list" where
  "split c [] = [[]]"
| "split c (x # xs) =
     (if x = c then [] # split c xs
      else (case split c xs of [] \<Rightarrow> [[x]] | w # ws \<Rightarrow> (x # w) # ws))"

text \<open>\<open>Array.prototype.join\<close>: the empty array joins to the empty string.\<close>

fun join :: "string \<Rightarrow> string list \<Rightarrow> string" where
  "join sep [] = []"
| "join sep [x] = x"
| "join sep (x # y # ys) = x @ sep @ join sep (y # ys)"

text \<open>\<open>parts.slice(0, -1)\<close> and \<open>parts[parts.length - 1]\<close>; the latter is \<open>undefined\<close>
  on an empty array.\<close>

definition slice_init :: "'a list \<Rightarrow> 'a list" where
  "slice_init xs = butlast xs"

definition last_elem :: "'a list \<Rightarrow> 'a option" where
  "last_elem xs = (case xs of [] \<Rightarrow> None | _ \<Rightarrow> Some (last xs))"

section \<open>SDK: document references and path parsing\<close>

text \<open>
  \<open>DocumentReference\<close> of \<open>TelestackSDK/src/index.ts\<close>: the fields \<open>collectionPath\<close> and
  \<open>id\<close> (the client handle is not part of the path computation). The getter \<open>path\<close> is
  the template \<open>`${this.collectionPath}/${this.id}`\<close>.
\<close>

record DocumentReference =
  collectionPath :: string
  ref_id :: string

definition path :: "DocumentReference \<Rightarrow> string" where
  "path r = collectionPath r @ ''/'' @ ref_id r"

datatype sdk_error = TelestackError string

text \<open>
  \<open>TelestackClient.doc\<close>: split at \<open>/\<close>, refuse an odd number of segments, otherwise the
  collection path is all segments but the last, joined again, and the id is the last one.
\<close>

definition doc :: "string \<Rightarrow> sdk_error + DocumentReference" where
  "doc p =
     (let parts = split CHR ''/'' p in
      if length parts mod 2 \<noteq> 0
      then Inl (TelestackError ''Invalid document path. Must have an even number of segments.'')
      else (case last_elem parts of
              None \<Rightarrow> Inl (TelestackError ''undefined id'')
            | Some i \<Rightarrow> Inr \<lparr>collectionPath = join ''/'' (slice_init parts), ref_id = i\<rparr>))"

section \<open>Worker: the security rules engine\<close>

text \<open>
  String predicates of JavaScript used by \<open>SecurityRules.matchPath\<close>:
  \<open>startsWith\<close>, \<open>endsWith\<close>, \<open>includes\<close>, the text before the first occurrence of a
  separator (\<open>s.split(sep)[0]\<close>), \<open>s.slice(1, -1)\<close>, and the replacement of every
  occurrence of a literal text (\<open>s.replace(/lit/g, r)\<close>).
\<close>

definition starts_with :: "string \<Rightarrow> string \<Rightarrow> bool" where
  "starts_with s p = (take (length p) s = p)"

definition ends_with :: "string \<Rightarrow> string \<Rightarrow> bool" where
  "ends_with s p = (length p \<le> length s \<and> drop (length s - length p) s = p)"

fun str_includes :: "string \<Rightarrow> string \<Rightarrow> bool" where
  "str_includes [] sub = (sub = [])"
| "str_includes (x # xs) sub = (starts_with (x # xs) sub \<or> str_includes xs sub)"

fun before_first :: "string \<Rightarrow> string \<Rightarrow> string" where
  "before_first sep [] = []"
| "before_first sep (x # xs) =
     (if starts_with (x # xs) sep then [] else x # before_first sep xs)"

definition slice_1_m1 :: "string \<Rightarrow> string" where
  "slice_1_m1 s = take (length s - 2) (drop 1 s)"

function replace_all :: "string \<Rightarrow> string \<Rightarrow> string \<Rightarrow> string" where
  "replace_all lit r s =
     (if lit = [] then s
      else if s = [] then []
      else if starts_with s lit then r @ replace_all lit r (drop (length lit) s)
      else hd s # replace_all lit r (tl s))"
  by pat_completeness auto
termination
  by (relation "measure (\<lambda>(lit, r, s). length s)") (auto simp: neq_Nil_conv)

declare replace_all.simps [simp del]

text \<open>
  The auth context built by the worker from a verified token is \<open>{ userId: payload.sub }\<close>;
  \<open>evaluateExpression\<close> also reads \<open>role\<close>. A field that is \<open>undefined\<close> is \<open>None\<close>; the
  anonymous caller is \<open>auth = null\<close>, here \<open>None :: auth option\<close>.
\<close>

record auth =
  userId :: "string option"
  role :: "string option"

datatype operation = Read | Write | Delete

record rule =
  rule_path :: string
  allow_read :: "string option"
  allow_write :: "string option"
  allow_delete :: "string option"

text \<open>Path parameters bound by a pattern: a JavaScript object, kept in insertion order.\<close>

type_synonym params = "(string \<times> string) list"

fun obj_set :: "('k \<times> 'v) list \<Rightarrow> 'k \<Rightarrow> 'v \<Rightarrow> ('k \<times> 'v) list" where
  "obj_set [] k v = [(k, v)]"
| "obj_set ((k', v') # kvs) k v =
     (if k' = k then (k, v) # kvs else (k', v') # obj_set kvs k v)"

text \<open>
  The loop of \<open>matchPath\<close> over the pattern segments; it is entered only with as many
  path segments as pattern segments, so the second equation is not reached.
\<close>

fun match_parts :: "string list \<Rightarrow> string list \<Rightarrow> params \<Rightarrow> params option" where
  "match_parts [] xs ps = Some ps"
| "match_parts (pp # pps) [] ps = None"
| "match_parts (pp # pps) (x # xs) ps =
     (if starts_with pp ''{'' \<and> ends_with pp ''}''
      then match_parts pps xs (obj_set ps (slice_1_m1 pp) x)
      else if pp \<noteq> x then None
      else match_parts pps xs ps)"

definition matchPath :: "string \<Rightarrow> string \<Rightarrow> params option" where
  "matchPath pattern pth =
     (let patternParts = split CHR ''/'' pattern;
          pathParts = split CHR ''/'' pth
      in if ends_with pattern ''/**'' \<and> starts_with pth (take (length pattern - 3) pattern)
         then Some []
         else if str_includes pattern ''{path=**}'' \<and>
                 starts_with pth (before_first ''{path=**}'' pattern)
         then Some [(''path'', drop (length (before_first ''{path=**}'' pattern)) pth)]
         else if length patternParts \<noteq> length pathParts then None
         else match_parts patternParts pathParts [])"

text \<open>
  The expression context \<open>{ ...match.params, auth }\<close>. The body of the \<open>try\<close> block of
  \<open>evaluateExpression\<close> substitutes the string-valued entries of the context and the
  \<open>auth\<close> fields into the expression and hands the result to the host's \<open>eval\<close>.
  The host's evaluator is a parameter \<open>ev\<close> of the model: given what is in scope at the
  call (the expression and the context) and the text to evaluate, it either throws or
  returns a value, of which only the truthiness is used by the callers. Parameter names
  are taken as regex-literal and values as free of \<open>$\<close>-patterns, as in the configured
  rules.
\<close>

record rule_context =
  ctx_params :: params
  ctx_auth :: "auth option"

datatype js_outcome = Threw | Returned bool

type_synonym js_eval = "string \<Rightarrow> rule_context \<Rightarrow> string \<Rightarrow> js_outcome"

fun subst_params :: "params \<Rightarrow> string \<Rightarrow> string" where
  "subst_params [] s = s"
| "subst_params ((k, v) # kvs) s =
     subst_params kvs (replace_all k ([CHR 0x27] @ v @ [CHR 0x27]) s)"

definition quote_or_undefined :: "string option \<Rightarrow> string" where
  "quote_or_undefined v =
     [CHR 0x27] @ (case v of None \<Rightarrow> ''undefined'' | Some x \<Rightarrow> x) @ [CHR 0x27]"

definition subst_auth :: "auth option \<Rightarrow> string \<Rightarrow> string" where
  "subst_auth a s =
     (case a of
        None \<Rightarrow> s
      | Some au \<Rightarrow>
          replace_all ''auth.role''
            ([CHR 0x27] @ (case role au of None \<Rightarrow> [] | Some r \<Rightarrow> r) @ [CHR 0x27])
            (replace_all ''auth.sub'' (quote_or_undefined (userId au))
               (replace_all ''auth.userId'' (quote_or_undefined (userId au)) s)))"

definition try_body :: "js_eval \<Rightarrow> string \<Rightarrow> rule_context \<Rightarrow> js_outcome" where
  "try_body ev expression ctx =
     ev expression ctx (subst_auth (ctx_auth ctx) (subst_params (ctx_params ctx) expression))"

definition evaluateExpression :: "js_eval \<Rightarrow> string \<Rightarrow> rule_context \<Rightarrow> bool" where
  "evaluateExpression ev expression ctx =
     (if expression = ''true'' then True
      else if expression = ''false'' then False
      else if expression = ''auth !== null'' then ctx_auth ctx \<noteq> None
      else (case try_body ev expression ctx of Threw \<Rightarrow> False | Returned b \<Rightarrow> b))"

text \<open>\<open>rule.allow[operation] || rule.allow['write'] || 'false'\<close>: a missing or empty
  entry is falsy.\<close>

definition allow_of :: "rule \<Rightarrow> operation \<Rightarrow> string option" where
  "allow_of r opn =
     (case opn of Read \<Rightarrow> allow_read r | Write \<Rightarrow> allow_write r | Delete \<Rightarrow> allow_delete r)"

definition js_or :: "string option \<Rightarrow> string \<Rightarrow> string" where
  "js_or a b = (case a of None \<Rightarrow> b | Some x \<Rightarrow> if x = [] then b else x)"

definition expression_of :: "rule \<Rightarrow> operation \<Rightarrow> string" where
  "expression_of r opn = js_or (allow_of r opn) (js_or (allow_write r) ''false'')"

fun evaluate :: "js_eval \<Rightarrow> rule list \<Rightarrow> string \<Rightarrow> operation \<Rightarrow> auth option \<Rightarrow> bool" where
  "evaluate ev [] pth opn a = False"
| "evaluate ev (r # rs) pth opn a =
     (case matchPath (rule_path r) pth of
        Some ps \<Rightarrow> evaluateExpression ev (expression_of r opn) \<lparr>ctx_params = ps, ctx_auth = a\<rparr>
      | None \<Rightarrow> evaluate ev rs pth opn a)"

text \<open>The configured rules, in their order in \<open>rulesConfig\<close>.\<close>

definition rule_sync :: rule where
  "rule_sync = \<lparr>rule_path = ''sync'', allow_read = Some ''auth !== null'',
     allow_write = None, allow_delete = None\<rparr>"

definition rule_storage :: rule where
  "rule_storage = \<lparr>rule_path = ''storage/users/{userId}/**'',
     allow_read = Some ''auth !== null && auth.sub === userId'',
     allow_write = Some ''auth !== null && auth.sub === userId'',
     allow_delete = Some ''auth !== null && auth.sub === userId''\<rparr>"

definition rule_documents :: rule where
  "rule_documents = \<lparr>rule_path = ''documents/{path=**}'',
     allow_read = Some ''auth.userId === userId'',
     allow_write = Some ''auth.userId === userId'', allow_delete = None\<rparr>"

definition rule_collection :: rule where
  "rule_collection = \<lparr>rule_path = ''{collection}'', allow_read = Some ''true'',
     allow_write = Some ''auth !== null'', allow_delete = None\<rparr>"

definition rule_document :: rule where
  "rule_document = \<lparr>rule_path = ''{collection}/{id}'', allow_read = Some ''true'',
     allow_write = Some ''auth !== null'', allow_delete = None\<rparr>"

definition rule_subtree :: rule where
  "rule_subtree = \<lparr>rule_path = ''{collection}/{id}/**'', allow_read = Some ''true'',
     allow_write = Some ''auth !== null'', allow_delete = None\<rparr>"

definition rulesConfig :: "rule list" where
  "rulesConfig =
     [rule_sync, rule_storage, rule_documents, rule_collection, rule_document, rule_subtree]"

section \<open>JSON values and the storage engine\<close>

text \<open>
  Document payloads are JSON values. Numbers are restricted to integers (in the range
  where the numbers of the language are exact) and texts to ASCII; an object is the
  list of its members in order, with distinct keys. The \<open>data\<close> and \<open>payload\<close> columns hold
  the \<open>JSON.stringify\<close> text of a value and are modelled by the value itself.
\<close>

datatype json =
    JNull
  | JBool bool
  | JNum int
  | JStr string
  | JArr "json list"
  | JObj "(string \<times> json) list"

fun obj_get :: "('k \<times> 'v) list \<Rightarrow> 'k \<Rightarrow> 'v option" where
  "obj_get [] k = None"
| "obj_get ((k', v) # kvs) k = (if k' = k then Some v else obj_get kvs k)"

definition obj_del :: "('k \<times> 'v) list \<Rightarrow> 'k \<Rightarrow> ('k \<times> 'v) list" where
  "obj_del kvs k = filter (\<lambda>kv. fst kv \<noteq> k) kvs"

text \<open>
  The SQL function \<open>json_patch(target, patch)\<close> of the storage engine, which runs the
  MergePatch algorithm of RFC 7396: a patch that is not an object replaces the target;
  an object patch is applied member by member to the target (taken as the empty object
  when it is not an object), where a \<open>null\<close> member removes the key and any other member
  is merged recursively into the target's member of that name.
\<close>

fun json_patch :: "json \<Rightarrow> json \<Rightarrow> json"
  and patch_members :: "(string \<times> json) list \<Rightarrow> (string \<times> json) list \<Rightarrow> (string \<times> json) list"
where
  "json_patch t (JObj ps) = JObj (patch_members (case t of JObj ts \<Rightarrow> ts | _ \<Rightarrow> []) ps)"
| "json_patch t JNull = JNull"
| "json_patch t (JBool b) = JBool b"
| "json_patch t (JNum n) = JNum n"
| "json_patch t (JStr x) = JStr x"
| "json_patch t (JArr xs) = JArr xs"
| "patch_members ts [] = ts"
| "patch_members ts ((k, v) # ps) =
     patch_members
       (if v = JNull then obj_del ts k
        else obj_set ts k (json_patch (case obj_get ts k of None \<Rightarrow> JNull | Some x \<Rightarrow> x) v))
       ps"

text \<open>
  The tables \<open>documents\<close> and \<open>events\<close> as \<open>initDatabase\<close> creates them. Rows are kept in
  insertion order. The wall-clock columns are left out, except that \<open>deleted_at\<close> is kept
  as the flag whether it is set. \<open>event_seq\<close> is the AUTOINCREMENT counter of
  \<open>events.version\<close>, and \<open>last_insert_rowid\<close> is the connection's value of the SQL
  function of that name, which D1 reports as \<open>meta.last_row_id\<close>.
\<close>

datatype event_type = Ev_INSERT | Ev_UPDATE | Ev_SET | Ev_DELETE

record doc_row =
  d_id :: string
  d_workspace_id :: string
  d_collection_name :: string
  d_path :: string
  d_user_id :: string
  d_data :: json
  d_version :: int
  d_deleted :: bool

record event_row =
  e_version :: int
  e_id :: string
  e_doc_id :: string
  e_workspace_id :: string
  e_event_type :: event_type
  e_payload :: json

record store =
  documents :: "doc_row list"
  events :: "event_row list"
  event_seq :: int
  last_insert_rowid :: int

definition empty_store :: store where
  "empty_store = \<lparr>documents = [], events = [], event_seq = 0, last_insert_rowid = 0\<rparr>"

text \<open>\<open>SELECT ... FROM documents WHERE id = ?\<close> with \<open>.first()\<close>.\<close>

definition select_doc :: "store \<Rightarrow> string \<Rightarrow> doc_row option" where
  "select_doc s i = find (\<lambda>d. d_id d = i) (documents s)"

text \<open>\<open>INSERT INTO events(id, doc_id, workspace_id, event_type, payload)\<close>: the version is
  assigned by AUTOINCREMENT and becomes the last inserted row id.\<close>

definition insert_event ::
  "store \<Rightarrow> string \<Rightarrow> string \<Rightarrow> string \<Rightarrow> event_type \<Rightarrow> json \<Rightarrow> store" where
  "insert_event s eid i ws ty pl =
     (let v = event_seq s + 1 in
      s\<lparr>events := events s @
           [\<lparr>e_version = v, e_id = eid, e_doc_id = i, e_workspace_id = ws,
             e_event_type = ty, e_payload = pl\<rparr>],
        event_seq := v, last_insert_rowid := v\<rparr>)"

text \<open>\<open>UPDATE documents SET ... WHERE id = ?\<close>: every row with that id is changed; no
  row is inserted, so the last inserted row id stays.\<close>

definition update_where_id :: "store \<Rightarrow> string \<Rightarrow> (doc_row \<Rightarrow> doc_row) \<Rightarrow> store" where
  "update_where_id s i f = s\<lparr>documents := map (\<lambda>d. if d_id d = i then f d else d) (documents s)\<rparr>"

text \<open>
  \<open>INSERT INTO documents\<close> without a conflict clause: a row with the same primary key
  makes the statement fail. A new row gets the next row id of the table (no row is ever
  deleted from \<open>documents\<close>, so this is the number of rows plus one).
\<close>

datatype db_error = ConstraintFailed | TypeError

definition insert_document :: "store \<Rightarrow> doc_row \<Rightarrow> db_error + store" where
  "insert_document s row =
     (case select_doc s (d_id row) of
        Some _ \<Rightarrow> Inl ConstraintFailed
      | None \<Rightarrow> Inr (s\<lparr>documents := documents s @ [row],
                        last_insert_rowid := int (length (documents s)) + 1\<rparr>))"

text \<open>
  The prepared statements of the batch endpoint. The three document statements take the
  version from \<open>(SELECT last_insert_rowid())\<close>, which is evaluated when the statement runs.
\<close>

datatype stmt =
    InsertEvent string string string event_type json
  | UpsertDoc string string string string string json
  | UpdateData json string
  | MarkDeleted string

fun exec_stmt :: "store \<Rightarrow> stmt \<Rightarrow> store" where
  "exec_stmt s (InsertEvent eid i ws ty pl) = insert_event s eid i ws ty pl"
| "exec_stmt s (UpsertDoc i ws col pth uid dat) =
     (case select_doc s i of
        None \<Rightarrow>
          s\<lparr>documents := documents s @
               [\<lparr>d_id = i, d_workspace_id = ws, d_collection_name = col, d_path = pth,
                 d_user_id = uid, d_data = dat, d_version = last_insert_rowid s,
                 d_deleted = False\<rparr>],
            last_insert_rowid := int (length (documents s)) + 1\<rparr>
      | Some _ \<Rightarrow>
          update_where_id s i
            (\<lambda>d. d\<lparr>d_data := dat, d_version := last_insert_rowid s, d_deleted := False\<rparr>))"
| "exec_stmt s (UpdateData dat i) =
     update_where_id s i (\<lambda>d. d\<lparr>d_data := dat, d_version := last_insert_rowid s\<rparr>)"
| "exec_stmt s (MarkDeleted i) =
     update_where_id s i (\<lambda>d. d\<lparr>d_deleted := True, d_version := last_insert_rowid s\<rparr>)"

text \<open>\<open>env.DB.batch\<close>: the statements run in order inside one transaction.\<close>

definition db_batch :: "store \<Rightarrow> stmt list \<Rightarrow> store" where
  "db_batch s stmts = foldl exec_stmt s stmts"

section \<open>Worker: publications, requests and responses\<close>

datatype pub_type = CREATED | UPDATED | DELETED

record pub_doc =
  pd_id :: string
  pd_collection :: "string option"
  pd_path :: string
  pd_data :: "json option"
  pd_version :: "int option"
  pd_userId :: "string option"
  pd_workspaceId :: "string option"

record pub_data =
  p_type :: pub_type
  p_id :: "string option"
  p_path :: "string option"
  p_doc :: "pub_doc option"
  p_data :: "json option"
  p_userId :: "string option"
  p_version :: "int option"

record publication =
  channel :: string
  payload :: pub_data

text \<open>\<open>`collection:${p.replace(/\//g, '_')}`\<close> and \<open>`path:${p.replace(/\//g, '_')}`\<close>.\<close>

definition underscored :: "string \<Rightarrow> string" where
  "underscored p = map (\<lambda>c. if c = CHR ''/'' then CHR ''_'' else c) p"

definition collection_channel :: "string \<Rightarrow> string" where
  "collection_channel p = ''collection:'' @ underscored p"

definition path_channel :: "string \<Rightarrow> string" where
  "path_channel p = ''path:'' @ underscored p"

text \<open>\<open>p.split('/').slice(0, -1).join('/')\<close>.\<close>

definition parent_of :: "string \<Rightarrow> string" where
  "parent_of p = join ''/'' (slice_init (split CHR ''/'' p))"

text \<open>
  Request bodies as the interface \<open>DocumentRequest\<close> declares them: \<open>data\<close> and \<open>userId\<close>
  are present, the other fields are optional. A batch operation carries \<open>type\<close> and
  \<open>path\<close>, and optionally \<open>data\<close> and \<open>expectedVersion\<close>; the type is \<open>SET\<close>, \<open>UPDATE\<close> or
  \<open>DELETE\<close>, or any other value (\<open>Op_other\<close>), which the handler does not refuse.
\<close>

record doc_body =
  b_data :: json
  b_userId :: string
  b_workspaceId :: "string option"
  b_parentPath :: "string option"
  b_expectedVersion :: "int option"

datatype op_type = Op_SET | Op_UPDATE | Op_DELETE | Op_other

record batch_op =
  op_type :: op_type
  op_path :: string
  op_data :: "json option"
  op_expectedVersion :: "int option"

text \<open>
  The write requests of the HTTP surface, already split into collection and document id,
  the non-empty segments of URLs of the form \<open>/documents/<collection>\<close> and
  \<open>/documents/<collection>/<id>\<close>:
  \<open>POST /documents/batch\<close> with the \<open>workspaceId\<close> header and the operations,
  \<open>POST\<close> on a collection, and \<open>PUT\<close>, \<open>PATCH\<close>, \<open>DELETE\<close> on a document.
\<close>

datatype request =
    Batch_req "string option" "batch_op list"
  | Create_req string doc_body
  | Put_req string string doc_body
  | Patch_req string string doc_body
  | Delete_req string string "int option"

record response =
  status :: nat
  body_version :: "int option"

type_synonym outcome = "response \<times> store \<times> publication list"

definition respond :: "nat \<Rightarrow> store \<Rightarrow> outcome" where
  "respond code s = (\<lparr>status = code, body_version = None\<rparr>, s, [])"

text \<open>JavaScript truthiness of a JSON value (\<open>!data\<close>) and of an optional string.\<close>

fun json_truthy :: "json \<Rightarrow> bool" where
  "json_truthy JNull = False"
| "json_truthy (JBool b) = b"
| "json_truthy (JNum n) = (n \<noteq> 0)"
| "json_truthy (JStr x) = (x \<noteq> [])"
| "json_truthy (JArr xs) = True"
| "json_truthy (JObj kvs) = True"

definition str_truthy :: "string option \<Rightarrow> bool" where
  "str_truthy x = (case x of None \<Rightarrow> False | Some v \<Rightarrow> v \<noteq> [])"

section \<open>Worker: the single-document handlers\<close>

text \<open>
  The values drawn from \<open>crypto.randomUUID()\<close> while a request is handled are given by
  \<open>rnd\<close>: \<open>rnd 0\<close> is the first draw, \<open>rnd 1\<close> the second, and so on.
\<close>

definition full_path :: "string option \<Rightarrow> string \<Rightarrow> string \<Rightarrow> string" where
  "full_path parentPath collection i =
     (if str_truthy parentPath then the parentPath @ ''/'' @ collection @ ''/'' @ i
      else collection @ ''/'' @ i)"

definition full_collection_path :: "string option \<Rightarrow> string \<Rightarrow> string" where
  "full_collection_path parentPath collection =
     (if str_truthy parentPath then the parentPath @ ''/'' @ collection else collection)"

text \<open>\<open>POST /documents/<collection>\<close>: create with a generated id.\<close>

definition create_handler :: "store \<Rightarrow> (nat \<Rightarrow> string) \<Rightarrow> string \<Rightarrow> doc_body \<Rightarrow> outcome" where
  "create_handler s rnd collection b =
     (if \<not> json_truthy (b_data b) \<or> b_userId b = [] then respond 400 s
      else
        let i = rnd 0; eventId = rnd 1;
            workspace = js_or (b_workspaceId b) ''default'';
            docPath = full_path (b_parentPath b) collection i;
            collectionPath = full_collection_path (b_parentPath b) collection;
            s1 = insert_event s eventId i workspace Ev_INSERT (b_data b);
            version = last_insert_rowid s1
        in case insert_document s1
                  \<lparr>d_id = i, d_workspace_id = workspace, d_collection_name = collection,
                    d_path = docPath, d_user_id = b_userId b, d_data = b_data b,
                    d_version = version, d_deleted = False\<rparr> of
             Inl err \<Rightarrow> respond 500 s1
           | Inr s2 \<Rightarrow>
               let pl = \<lparr>p_type = CREATED, p_id = None, p_path = None,
                          p_doc = Some \<lparr>pd_id = i, pd_collection = Some collection,
                            pd_path = docPath, pd_data = Some (b_data b),
                            pd_version = Some version, pd_userId = Some (b_userId b),
                            pd_workspaceId = Some workspace\<rparr>,
                          p_data = None, p_userId = None, p_version = None\<rparr>
               in (\<lparr>status = 201, body_version = Some version\<rparr>, s2,
                   [\<lparr>channel = collection_channel collectionPath, payload = pl\<rparr>,
                    \<lparr>channel = path_channel docPath, payload = pl\<rparr>]))"

text \<open>\<open>PUT /documents/<collection>/<id>\<close>: set an existing document, or create it.\<close>

definition put_handler ::
  "store \<Rightarrow> (nat \<Rightarrow> string) \<Rightarrow> string \<Rightarrow> string \<Rightarrow> doc_body \<Rightarrow> outcome" where
  "put_handler s rnd collection docId b =
     (let workspace = js_or (b_workspaceId b) ''default''; eventId = rnd 0 in
      case select_doc s docId of
        Some d \<Rightarrow>
          if b_expectedVersion b \<noteq> None \<and> Some (d_version d) \<noteq> b_expectedVersion b
          then respond 409 s
          else
            let s1 = insert_event s eventId docId workspace Ev_SET (b_data b);
                version = last_insert_rowid s1;
                collectionPath = parent_of (d_path d);
                s2 = update_where_id s1 docId
                       (\<lambda>r. r\<lparr>d_data := b_data b, d_version := version, d_deleted := False\<rparr>);
                pl = \<lparr>p_type = UPDATED, p_id = Some docId, p_path = None,
                       p_doc = Some \<lparr>pd_id = docId, pd_collection = Some collection,
                         pd_path = d_path d, pd_data = Some (b_data b),
                         pd_version = Some version, pd_userId = Some (b_userId b),
                         pd_workspaceId = Some workspace\<rparr>,
                       p_data = None, p_userId = None, p_version = Some version\<rparr>
            in (\<lparr>status = 200, body_version = Some version\<rparr>, s2,
                [\<lparr>channel = collection_channel collectionPath, payload = pl\<rparr>,
                 \<lparr>channel = path_channel (d_path d), payload = pl\<rparr>])
      | None \<Rightarrow>
          let docPath = full_path (b_parentPath b) collection docId;
              collectionPath = full_collection_path (b_parentPath b) collection;
              s1 = insert_event s eventId docId workspace Ev_INSERT (b_data b);
              version = last_insert_rowid s1
          in case insert_document s1
                    \<lparr>d_id = docId, d_workspace_id = workspace, d_collection_name = collection,
                      d_path = docPath, d_user_id = b_userId b, d_data = b_data b,
                      d_version = version, d_deleted = False\<rparr> of
               Inl err \<Rightarrow> respond 500 s1
             | Inr s2 \<Rightarrow>
                 let pl = \<lparr>p_type = CREATED, p_id = None, p_path = None,
                            p_doc = Some \<lparr>pd_id = docId, pd_collection = Some collection,
                              pd_path = docPath, pd_data = Some (b_data b),
                              pd_version = Some version, pd_userId = None,
                              pd_workspaceId = Some workspace\<rparr>,
                            p_data = None, p_userId = None, p_version = None\<rparr>
                 in (\<lparr>status = 201, body_version = Some version\<rparr>, s2,
                     [\<lparr>channel = collection_channel collectionPath, payload = pl\<rparr>,
                      \<lparr>channel = path_channel docPath, payload = pl\<rparr>]))"

text \<open>\<open>PATCH /documents/<collection>/<id>\<close>: merge the body's data into the stored data.\<close>

definition patch_handler ::
  "store \<Rightarrow> (nat \<Rightarrow> string) \<Rightarrow> string \<Rightarrow> string \<Rightarrow> doc_body \<Rightarrow> outcome" where
  "patch_handler s rnd collection docId b =
     (let workspace = js_or (b_workspaceId b) ''default''; eventId = rnd 0 in
      case select_doc s docId of
        None \<Rightarrow> respond 404 s
      | Some d \<Rightarrow>
          if b_expectedVersion b \<noteq> None \<and> Some (d_version d) \<noteq> b_expectedVersion b
          then respond 409 s
          else
            let s1 = insert_event s eventId docId workspace Ev_UPDATE (b_data b);
                version = last_insert_rowid s1;
                collectionPath = parent_of (d_path d);
                s2 = update_where_id s1 docId
                       (\<lambda>r. r\<lparr>d_data := json_patch (d_data r) (b_data b),
                               d_version := version, d_deleted := False\<rparr>)
            in case select_doc s2 docId of
                 None \<Rightarrow> respond 500 s2
               | Some updatedDoc \<Rightarrow>
                   let pl = \<lparr>p_type = UPDATED, p_id = Some docId, p_path = None,
                              p_doc = Some \<lparr>pd_id = docId, pd_collection = Some collection,
                                pd_path = d_path updatedDoc, pd_data = Some (d_data updatedDoc),
                                pd_version = Some version, pd_userId = Some (b_userId b),
                                pd_workspaceId = Some workspace\<rparr>,
                              p_data = None, p_userId = None, p_version = Some version\<rparr>
                   in (\<lparr>status = 200, body_version = Some version\<rparr>, s2,
                       [\<lparr>channel = collection_channel collectionPath, payload = pl\<rparr>,
                        \<lparr>channel = path_channel (d_path updatedDoc), payload = pl\<rparr>]))"

text \<open>\<open>DELETE /documents/<collection>/<id>\<close>: soft delete; the event is written into the
  document's own workspace.\<close>

definition delete_handler ::
  "store \<Rightarrow> (nat \<Rightarrow> string) \<Rightarrow> string \<Rightarrow> int option \<Rightarrow> outcome" where
  "delete_handler s rnd docId expectedVersion =
     (case select_doc s docId of
        None \<Rightarrow> respond 204 s
      | Some d \<Rightarrow>
          if expectedVersion \<noteq> None \<and> Some (d_version d) \<noteq> expectedVersion
          then respond 409 s
          else
            let s1 = insert_event s (rnd 0) docId (d_workspace_id d) Ev_DELETE (JObj []);
                version = last_insert_rowid s1;
                collectionPath = parent_of (d_path d);
                s2 = update_where_id s1 docId (\<lambda>r. r\<lparr>d_deleted := True, d_version := version\<rparr>);
                pl = \<lparr>p_type = DELETED, p_id = Some docId, p_path = None, p_doc = None,
                       p_data = None, p_userId = None, p_version = Some version\<rparr>
            in (\<lparr>status = 204, body_version = None\<rparr>, s2,
                [\<lparr>channel = collection_channel collectionPath, payload = pl\<rparr>,
                 \<lparr>channel = path_channel (d_path d), payload = pl\<rparr>]))"

section \<open>Worker: the batch endpoint and the request router\<close>

text \<open>
  One round of the loop over \<open>operations\<close>: the OCC check against the stored version,
  the rules check, the event statement, the document statement and the two
  publications. The result is the status of an early return, or the statements and
  publications the round pushes. An operation whose type is none of the three pushes
  the event (with the type \<open>DELETE\<close>) and the publications (with the type \<open>UPDATED\<close>) and
  no document statement. Binding \<open>undefined\<close> to a statement (a \<open>SET\<close> whose path
  has no collection segment, a \<open>SET\<close> or \<open>UPDATE\<close> without data) throws, which the
  handler's outer \<open>catch\<close> answers with 500. The path always has a last segment, as
  \<open>split\<close> never returns the empty list.
\<close>

definition event_type_of :: "op_type \<Rightarrow> event_type" where
  "event_type_of ty = (case ty of Op_SET \<Rightarrow> Ev_INSERT | Op_UPDATE \<Rightarrow> Ev_UPDATE | _ \<Rightarrow> Ev_DELETE)"

definition pub_type_of :: "op_type \<Rightarrow> pub_type" where
  "pub_type_of ty = (case ty of Op_DELETE \<Rightarrow> DELETED | Op_SET \<Rightarrow> CREATED | _ \<Rightarrow> UPDATED)"

definition data_or_empty :: "json option \<Rightarrow> json" where
  "data_or_empty d = (case d of None \<Rightarrow> JObj [] | Some v \<Rightarrow> if json_truthy v then v else JObj [])"

definition batch_pubs :: "op_type \<Rightarrow> string \<Rightarrow> string \<Rightarrow> json option \<Rightarrow> string \<Rightarrow> publication list" where
  "batch_pubs ty i pth dat uid =
     [\<lparr>channel = collection_channel (parent_of pth),
        payload = \<lparr>p_type = pub_type_of ty, p_id = Some i, p_path = Some pth,
          p_doc = Some \<lparr>pd_id = i, pd_collection = None, pd_path = pth, pd_data = dat,
            pd_version = None, pd_userId = Some uid, pd_workspaceId = None\<rparr>,
          p_data = None, p_userId = None, p_version = None\<rparr>\<rparr>,
      \<lparr>channel = path_channel pth,
        payload = \<lparr>p_type = pub_type_of ty, p_id = Some i, p_path = Some pth,
          p_doc = None, p_data = dat, p_userId = Some uid, p_version = None\<rparr>\<rparr>]"

definition prepare_op ::
  "js_eval \<Rightarrow> store \<Rightarrow> auth option \<Rightarrow> string \<Rightarrow> string \<Rightarrow> batch_op
     \<Rightarrow> nat + (stmt list \<times> publication list)" where
  "prepare_op ev s a workspaceId eventId opr =
     (let parts = split CHR ''/'' (op_path opr);
          col = (if 2 \<le> length parts then Some (parts ! (length parts - 2)) else None);
          i = last parts;
          uid = js_or (case a of None \<Rightarrow> None | Some au \<Rightarrow> userId au) ''anonymous'';
          currentDoc = select_doc s i
      in if op_expectedVersion opr \<noteq> None \<and>
            (currentDoc = None \<or> map_option d_version currentDoc \<noteq> op_expectedVersion opr)
         then Inl 409
         else if \<not> evaluate ev rulesConfig (op_path opr)
                     (if op_type opr = Op_DELETE then Delete else Write) a
         then Inl 403
         else
           let evs = InsertEvent eventId i workspaceId (event_type_of (op_type opr))
                       (data_or_empty (op_data opr));
               pubs = batch_pubs (op_type opr) i (op_path opr) (op_data opr) uid
           in case op_type opr of
                Op_SET \<Rightarrow>
                  (case (col, op_data opr) of
                     (Some c, Some dat) \<Rightarrow>
                       Inr ([evs, UpsertDoc i workspaceId c (op_path opr) uid dat], pubs)
                   | _ \<Rightarrow> Inl 500)
              | Op_UPDATE \<Rightarrow>
                  (case op_data opr of
                     Some dat \<Rightarrow> Inr ([evs, UpdateData dat i], pubs)
                   | None \<Rightarrow> Inl 500)
              | Op_DELETE \<Rightarrow> Inr ([evs, MarkDeleted i], pubs)
              | Op_other \<Rightarrow> Inr ([evs], pubs))"

fun prepare_ops ::
  "js_eval \<Rightarrow> store \<Rightarrow> auth option \<Rightarrow> string \<Rightarrow> (nat \<Rightarrow> string) \<Rightarrow> nat \<Rightarrow> batch_op list
     \<Rightarrow> nat + (stmt list \<times> publication list)" where
  "prepare_ops ev s a ws rnd k [] = Inr ([], [])"
| "prepare_ops ev s a ws rnd k (opr # oprs) =
     (case prepare_op ev s a ws (rnd k) opr of
        Inl code \<Rightarrow> Inl code
      | Inr (st, pb) \<Rightarrow>
          (case prepare_ops ev s a ws rnd (Suc k) oprs of
             Inl code \<Rightarrow> Inl code
           | Inr (sts, pbs) \<Rightarrow> Inr (st @ sts, pb @ pbs)))"

text \<open>
  \<open>POST /documents/batch\<close>: all statements are prepared first and then run as one
  \<open>DB.batch\<close>; \<open>lastVersion\<close> is the \<open>meta.last_row_id\<close> of the last statement, and every
  publication gets it as its \<open>version\<close>. With no statement at all there is no last
  result to read, and the handler answers 500.
\<close>

definition stamp :: "int \<Rightarrow> publication \<Rightarrow> publication" where
  "stamp v p = p\<lparr>payload := (payload p)\<lparr>p_version := Some v\<rparr>\<rparr>"

definition batch_handler ::
  "js_eval \<Rightarrow> store \<Rightarrow> auth option \<Rightarrow> (nat \<Rightarrow> string) \<Rightarrow> string option \<Rightarrow> batch_op list
     \<Rightarrow> outcome" where
  "batch_handler ev s a rnd hdr operations =
     (let workspaceId = js_or hdr ''default'' in
      case prepare_ops ev s a workspaceId rnd 0 operations of
        Inl code \<Rightarrow> respond code s
      | Inr (d1Ops, publishPayloads) \<Rightarrow>
          if d1Ops = [] then respond 500 s
          else
            let s' = db_batch s d1Ops; lastVersion = last_insert_rowid s'
            in (\<lparr>status = 200, body_version = Some lastVersion\<rparr>, s',
                map (stamp lastVersion) publishPayloads))"

text \<open>
  The router of \<open>fetch\<close> for the write requests. The rules check at the top is skipped
  for the collections \<open>internal\<close> and \<open>auth\<close>; for any method but \<open>GET\<close> the operation is
  \<open>write\<close>, and the checked path is the URL path below \<open>/documents\<close>. A \<open>POST\<close> on the
  collection \<open>batch\<close> is the batch endpoint, which answers 400 when the body has no
  \<open>operations\<close> array.
\<close>

definition security_check :: "js_eval \<Rightarrow> string \<Rightarrow> string \<Rightarrow> auth option \<Rightarrow> bool" where
  "security_check ev collection docPath a =
     (collection = ''internal'' \<or> collection = ''auth'' \<or>
      evaluate ev rulesConfig docPath Write a)"

fun fetch :: "js_eval \<Rightarrow> store \<Rightarrow> auth option \<Rightarrow> (nat \<Rightarrow> string) \<Rightarrow> request \<Rightarrow> outcome" where
  "fetch ev s a rnd (Batch_req hdr operations) =
     (if \<not> security_check ev ''batch'' ''batch'' a then respond 403 s
      else batch_handler ev s a rnd hdr operations)"
| "fetch ev s a rnd (Create_req collection b) =
     (if \<not> security_check ev collection collection a then respond 403 s
      else if collection = ''batch'' then respond 400 s
      else create_handler s rnd collection b)"
| "fetch ev s a rnd (Put_req collection docId b) =
     (if \<not> security_check ev collection (collection @ ''/'' @ docId) a then respond 403 s
      else put_handler s rnd collection docId b)"
| "fetch ev s a rnd (Patch_req collection docId b) =
     (if \<not> security_check ev collection (collection @ ''/'' @ docId) a then respond 403 s
      else patch_handler s rnd collection docId b)"
| "fetch ev s a rnd (Delete_req collection docId expectedVersion) =
     (if \<not> security_check ev collection (collection @ ''/'' @ docId) a then respond 403 s
      else delete_handler s rnd docId expectedVersion)"

section \<open>Properties of outcomes, and example data\<close>

text \<open>
  The write of a handler went through: the response is a success, exactly one event
  was appended, for the document and with the next version, and the document row
  carries that version.
\<close>

definition proceeded :: "store \<Rightarrow> string \<Rightarrow> outcome \<Rightarrow> bool" where
  "proceeded s i out =
     (case out of (r, s', pubs) \<Rightarrow>
        (status r = 200 \<or> status r = 204) \<and>
        (\<exists>e. events s' = events s @ [e] \<and> e_doc_id e = i \<and> e_version e = event_seq s + 1) \<and>
        (\<exists>d'. select_doc s' i = Some d' \<and> d_version d' = event_seq s + 1))"

text \<open>Concrete data for the examples: a host evaluator that throws on every text and one
  that returns a truthy value on every text, an authenticated caller, a fixed sequence
  of generated ids, and small stores.\<close>

definition ev_throw :: js_eval where
  "ev_throw = (\<lambda>expression ctx text. Threw)"


definition alice :: "auth option" where
  "alice = Some \<lparr>userId = Some ''u1'', role = None\<rparr>"

definition rnd_fixed :: "nat \<Rightarrow> string" where
  "rnd_fixed n = (if n = 0 then ''uuid-0'' else if n = 1 then ''uuid-1'' else ''uuid-2'')"

definition body_of :: "json \<Rightarrow> doc_body" where
  "body_of d = \<lparr>b_data = d, b_userId = ''u1'', b_workspaceId = None, b_parentPath = None,
     b_expectedVersion = None\<rparr>"

definition doc_a :: doc_row where
  "doc_a = \<lparr>d_id = ''a'', d_workspace_id = ''default'', d_collection_name = ''items'',
     d_path = ''items/a'', d_user_id = ''u1'',
     d_data = JObj [(''name'', JStr ''a''), (''value'', JNum 1)],
     d_version = 1, d_deleted = False\<rparr>"

definition doc_b :: doc_row where
  "doc_b = \<lparr>d_id = ''b'', d_workspace_id = ''default'', d_collection_name = ''items'',
     d_path = ''items/b'', d_user_id = ''u1'', d_data = JObj [(''value'', JNum 5)],
     d_version = 2, d_deleted = False\<rparr>"

definition event_a :: event_row where
  "event_a = \<lparr>e_version = 1, e_id = ''uuid-0'', e_doc_id = ''a'', e_workspace_id = ''default'',
     e_event_type = Ev_INSERT, e_payload = JObj [(''name'', JStr ''a''), (''value'', JNum 1)]\<rparr>"

definition event_b :: event_row where
  "event_b = \<lparr>e_version = 2, e_id = ''uuid-0'', e_doc_id = ''b'', e_workspace_id = ''default'',
     e_event_type = Ev_INSERT, e_payload = JObj [(''value'', JNum 5)]\<rparr>"

definition store_a :: store where
  "store_a = \<lparr>documents = [doc_a], events = [event_a], event_seq = 1, last_insert_rowid = 1\<rparr>"

definition store_ab :: store where
  "store_ab = \<lparr>documents = [doc_a, doc_b], events = [event_a, event_b], event_seq = 2,
     last_insert_rowid = 2\<rparr>"

text \<open>Scenario S3 on the empty store: two \<open>SET\<close>s and an \<open>UPDATE\<close> of the id \<open>c\<close>, which
  does not exist; no operation carries an \<open>expectedVersion\<close>, as with a \<open>WriteBatch\<close>.\<close>

definition batch_s3 :: "batch_op list" where
  "batch_s3 =
     [\<lparr>op_type = Op_SET, op_path = ''items/a'', op_data = Some (JObj [(''v'', JNum 1)]),
        op_expectedVersion = None\<rparr>,
      \<lparr>op_type = Op_SET, op_path = ''items/b'', op_data = Some (JObj [(''v'', JNum 2)]),
        op_expectedVersion = None\<rparr>,
      \<lparr>op_type = Op_UPDATE, op_path = ''items/c'', op_data = Some (JObj [(''x'', JNum 3)]),
        op_expectedVersion = None\<rparr>]"

definition after_s3 :: outcome where
  "after_s3 = fetch ev_throw empty_store alice rnd_fixed (Batch_req None batch_s3)"

text \<open>A batch with one \<open>UPDATE\<close> of the document \<open>a\<close>, and the same patch sent by \<open>PATCH\<close>.\<close>

definition patch_value_2 :: json where
  "patch_value_2 = JObj [(''value'', JNum 2)]"

definition batch_update_a :: "batch_op list" where
  "batch_update_a =
     [\<lparr>op_type = Op_UPDATE, op_path = ''items/a'', op_data = Some patch_value_2,
        op_expectedVersion = None\<rparr>]"

definition after_batch_update_a :: outcome where
  "after_batch_update_a = fetch ev_throw store_a alice rnd_fixed (Batch_req None batch_update_a)"

definition after_patch_a :: outcome where
  "after_patch_a =
     fetch ev_throw store_a alice rnd_fixed (Patch_req ''items'' ''a'' (body_of patch_value_2))"

text \<open>A batch that updates the two documents \<open>a\<close> and \<open>b\<close>.\<close>

definition batch_ab :: "batch_op list" where
  "batch_ab =
     [\<lparr>op_type = Op_UPDATE, op_path = ''items/a'', op_data = Some (JObj [(''value'', JNum 2)]),
        op_expectedVersion = None\<rparr>,
      \<lparr>op_type = Op_UPDATE, op_path = ''items/b'', op_data = Some (JObj [(''value'', JNum 6)]),
        op_expectedVersion = None\<rparr>]"

definition after_ab :: outcome where
  "after_ab = fetch ev_throw store_ab alice rnd_fixed (Batch_req None batch_ab)"

section \<open>Runs of successful requests and the version invariant\<close>

text \<open>
  The version of the latest event appended for a document id: the events are kept in
  the order of their insertion, so this is the last event of the list with that
  \<open>doc_id\<close>. The second function also asks for a given \<open>workspace_id\<close> of the event.
\<close>

definition latest_event_version :: "event_row list \<Rightarrow> string \<Rightarrow> int option" where
  "latest_event_version es i = map_option e_version (find (\<lambda>e. e_doc_id e = i) (rev es))"

definition latest_event_version_in :: "event_row list \<Rightarrow> string \<Rightarrow> string \<Rightarrow> int option" where
  "latest_event_version_in es ws i =
     map_option e_version (find (\<lambda>e. e_doc_id e = i \<and> e_workspace_id e = ws) (rev es))"

definition successful :: "response \<Rightarrow> bool" where
  "successful r = (status r = 200 \<or> status r = 201 \<or> status r = 204)"

text \<open>
  A sequence of requests, each with its caller and the ids generated while it is
  handled, run one after the other from a store; the run is defined when every request
  is answered with a success status, and then gives the final store.
\<close>

fun run ::
  "js_eval \<Rightarrow> store \<Rightarrow> (auth option \<times> (nat \<Rightarrow> string) \<times> request) list \<Rightarrow> store option" where
  "run ev s [] = Some s"
| "run ev s ((a, rnd, req) # rest) =
     (case fetch ev s a rnd req of
        (r, s', pubs) \<Rightarrow> if successful r then run ev s' rest else None)"

definition versions_ok :: "store \<Rightarrow> bool" where
  "versions_ok s =
     (\<forall>d\<in>set (documents s). latest_event_version (events s) (d_id d) = Some (d_version d))"

text \<open>The document a statement of the batch writes to, and the shape of the statements
  one batch operation pushes: the event for an id, then a document statement on it.\<close>

fun stmt_target :: "stmt \<Rightarrow> string option" where
  "stmt_target (InsertEvent eid i ws ty pl) = None"
| "stmt_target (UpsertDoc i ws col pth uid dat) = Some i"
| "stmt_target (UpdateData dat i) = Some i"
| "stmt_target (MarkDeleted i) = Some i"

fun op_pair :: "stmt list \<Rightarrow> bool" where
  "op_pair [InsertEvent eid i ws ty pl, ds] = (stmt_target ds = Some i)"
| "op_pair sts = False"

text \<open>A request whose batch operations, if it has any, all have one of the three types.\<close>

fun known_request :: "request \<Rightarrow> bool" where
  "known_request (Batch_req hdr oprs) = list_all (\<lambda>opr. op_type opr \<noteq> Op_other) oprs"
| "known_request req = True"

text \<open>Two clients configured with different workspaces set the same document id; the
  document is then deleted.\<close>

definition body_in :: "string \<Rightarrow> json \<Rightarrow> doc_body" where
  "body_in ws d = \<lparr>b_data = d, b_userId = ''u1'', b_workspaceId = Some ws, b_parentPath = None,
     b_expectedVersion = None\<rparr>"

definition two_workspaces :: "(auth option \<times> (nat \<Rightarrow> string) \<times> request) list" where
  "two_workspaces =
     [(alice, rnd_fixed, Put_req ''items'' ''x'' (body_in ''w1'' (JNum 1))),
      (alice, rnd_fixed, Put_req ''items'' ''x'' (body_in ''w2'' (JNum 2)))]"

definition doc_x :: doc_row where
  "doc_x = \<lparr>d_id = ''x'', d_workspace_id = ''w1'', d_collection_name = ''items'',
     d_path = ''items/x'', d_user_id = ''u1'', d_data = JNum 2, d_version = 2,
     d_deleted = False\<rparr>"

definition store_x :: store where
  "store_x = \<lparr>documents = [doc_x],
     events =
       [\<lparr>e_version = 1, e_id = ''uuid-0'', e_doc_id = ''x'', e_workspace_id = ''w1'',
          e_event_type = Ev_INSERT, e_payload = JNum 1\<rparr>,
        \<lparr>e_version = 2, e_id = ''uuid-0'', e_doc_id = ''x'', e_workspace_id = ''w2'',
          e_event_type = Ev_SET, e_payload = JNum 2\<rparr>],
     event_seq = 2, last_insert_rowid = 2\<rparr>"

definition after_delete_x :: outcome where
  "after_delete_x = fetch ev_throw store_x alice rnd_fixed (Delete_req ''items'' ''x'' None)"

section \<open>SDK: document snapshots and the local cache\<close>

text \<open>
  The persistence tables of the client: \<open>documents\<close>, keyed by path with the cached data
  and version, and \<open>queue\<close>, keyed by path with the pending operation. The client state
  that \<open>asyncGetSnapshot\<close> touches is \<open>lastVersion\<close> and the persistence engine, which is
  \<open>null\<close> unless \<open>enablePersistence\<close> is set.
\<close>

record cached_doc =
  cached_data :: json
  cached_version :: int

datatype queued_type = Q_SET | Q_UPDATE | Q_DELETE

record queued_op =
  q_type :: queued_type
  q_data :: "json option"

record cache =
  cache_documents :: "(string \<times> cached_doc) list"
  cache_queue :: "(string \<times> queued_op) list"

record client =
  lastVersion :: int
  persistence :: "cache option"

record metadata =
  fromCache :: bool
  hasPendingWrites :: bool

text \<open>\<open>DocumentSnapshot\<close>; the data is \<open>null\<close> for a document that does not exist. The default
  metadata of the constructor is \<open>{ fromCache: false, hasPendingWrites: false }\<close>.\<close>

record DocumentSnapshot =
  snap_id :: string
  snap_path :: string
  snap_data :: "json option"
  snap_version :: int
  snap_metadata :: metadata

definition nullable :: "json \<Rightarrow> json option" where
  "nullable j = (if j = JNull then None else Some j)"

definition default_metadata :: metadata where
  "default_metadata = \<lparr>fromCache = False, hasPendingWrites = False\<rparr>"

text \<open>
  What \<open>authFetch\<close> of the document URL does: it throws (no network, or no token), or
  it returns a response with a status and, for a document, the body's \<open>data\<close> and
  \<open>version\<close>.
\<close>

datatype http_result =
    FetchThrows
  | HttpResponse nat json int

definition updateLastVersion :: "client \<Rightarrow> int \<Rightarrow> client" where
  "updateLastVersion cl v = cl\<lparr>lastVersion := max (lastVersion cl) v\<rparr>"

definition cache_put_document :: "client \<Rightarrow> string \<Rightarrow> cached_doc \<Rightarrow> client" where
  "cache_put_document cl p c =
     (case persistence cl of
        None \<Rightarrow> cl
      | Some ca \<Rightarrow> cl\<lparr>persistence := Some (ca\<lparr>cache_documents := obj_set (cache_documents ca) p c\<rparr>)\<rparr>)"

text \<open>The \<open>catch\<close> block of \<open>asyncGetSnapshot\<close>: serve the cached document if there is
  one, with both metadata flags set; otherwise rethrow.\<close>

definition cache_fallback :: "client \<Rightarrow> DocumentReference \<Rightarrow> sdk_error + DocumentSnapshot" where
  "cache_fallback cl r =
     (case persistence cl of
        None \<Rightarrow> Inl (TelestackError ''fetch failed'')
      | Some ca \<Rightarrow>
          (case obj_get (cache_documents ca) (path r) of
             None \<Rightarrow> Inl (TelestackError ''fetch failed'')
           | Some c \<Rightarrow>
               Inr \<lparr>snap_id = ref_id r, snap_path = path r, snap_data = nullable (cached_data c),
                     snap_version = cached_version c,
                     snap_metadata = \<lparr>fromCache = True, hasPendingWrites = True\<rparr>\<rparr>))"

definition asyncGetSnapshot ::
  "client \<Rightarrow> DocumentReference \<Rightarrow> http_result \<Rightarrow> (sdk_error + DocumentSnapshot) \<times> client" where
  "asyncGetSnapshot cl r res =
     (case res of
        FetchThrows \<Rightarrow> (cache_fallback cl r, cl)
      | HttpResponse code dat ver \<Rightarrow>
          if code = 404
          then (Inr \<lparr>snap_id = ref_id r, snap_path = path r, snap_data = None, snap_version = 0,
                      snap_metadata = default_metadata\<rparr>, cl)
          else if \<not> (200 \<le> code \<and> code \<le> 299) then (cache_fallback cl r, cl)
          else
            let cl' = (if ver \<noteq> 0
                       then cache_put_document (updateLastVersion cl ver) (path r)
                              \<lparr>cached_data = dat, cached_version = ver\<rparr>
                       else cl)
            in (Inr \<lparr>snap_id = ref_id r, snap_path = path r,
                      snap_data = nullable dat, snap_version = ver,
                      snap_metadata = default_metadata\<rparr>, cl'))"

text \<open>A client with persistence, nothing cached and nothing queued; it reads the document
  \<open>items/a\<close> online at the server's version 7, and then again with the network down.\<close>

definition client0 :: client where
  "client0 = \<lparr>lastVersion = 0,
     persistence = Some \<lparr>cache_documents = [], cache_queue = []\<rparr>\<rparr>"

definition ref_a :: DocumentReference where
  "ref_a = \<lparr>collectionPath = ''items'', ref_id = ''a''\<rparr>"

definition client_after_read :: client where
  "client_after_read =
     snd (asyncGetSnapshot client0 ref_a (HttpResponse 200 (JObj [(''n'', JNum 5)]) 7))"

definition offline_read :: "sdk_error + DocumentSnapshot" where
  "offline_read = fst (asyncGetSnapshot client_after_read ref_a FetchThrows)"

section \<open>SDK: the local query matcher\<close>

text \<open>
  A filter of a query: field, operator and value. \<open>Query.matches\<close> is given the payload
  of a document; the payload is an object, given here by its members, and
  \<open>doc[filter.field]\<close> is the member of that name or \<open>undefined\<close>. For a field that is not
  a member but names a property every object inherits (\<open>inherited_properties\<close>), the
  language yields that property instead of \<open>undefined\<close>; the matcher is modelled for the
  other fields.
\<close>

definition inherited_properties :: "string list" where
  "inherited_properties =
     [''constructor'', ''hasOwnProperty'', ''isPrototypeOf'', ''propertyIsEnumerable'',
      ''toLocaleString'', ''toString'', ''valueOf'']"


datatype WhereFilterOp =
  W_eq | W_ne | W_lt | W_le | W_gt | W_ge | W_array_contains | W_in | W_LIKE

record where_filter =
  f_field :: string
  f_op :: WhereFilterOp
  f_value :: json

text \<open>\<open>a === b\<close> for a possibly undefined \<open>a\<close> and a JSON value \<open>b\<close>: primitives are equal
  when they have the same type and value; two arrays or objects that come from
  different places are different references.\<close>

fun strict_eq :: "json option \<Rightarrow> json \<Rightarrow> bool" where
  "strict_eq (Some JNull) JNull = True"
| "strict_eq (Some (JBool a)) (JBool b) = (a = b)"
| "strict_eq (Some (JNum a)) (JNum b) = (a = b)"
| "strict_eq (Some (JStr a)) (JStr b) = (a = b)"
| "strict_eq x y = False"

text \<open>Decimal digits of an integer, as \<open>String(n)\<close> and \<open>JSON.stringify(n)\<close> write it.\<close>

fun decimal_nat :: "nat \<Rightarrow> string" where
  "decimal_nat n =
     (if n < 10 then [char_of (48 + n)] else decimal_nat (n div 10) @ [char_of (48 + n mod 10)])"

declare decimal_nat.simps [simp del]

definition decimal :: "int \<Rightarrow> string" where
  "decimal n = (if n < 0 then CHR ''-'' # decimal_nat (nat (- n)) else decimal_nat (nat n))"

text \<open>\<open>String(x)\<close>: an array is the comma-joined text of its elements, with \<open>null\<close> as the
  empty text; an object is \<open>[object Object]\<close>.\<close>

fun js_string :: "json \<Rightarrow> string" and js_join :: "json list \<Rightarrow> string" where
  "js_string JNull = ''null''"
| "js_string (JBool b) = (if b then ''true'' else ''false'')"
| "js_string (JNum n) = decimal n"
| "js_string (JStr x) = x"
| "js_string (JArr xs) = js_join xs"
| "js_string (JObj kvs) = ''[object Object]''"
| "js_join [] = []"
| "js_join [x] = (if x = JNull then [] else js_string x)"
| "js_join (x # y # ys) = (if x = JNull then [] else js_string x) @ '','' @ js_join (y # ys)"

text \<open>
  A text of the model is a sequence of characters with codes below 256; to the matcher
  a character is one code unit, and the storage engine keeps a text as its UTF-8 bytes.

  \<open>ToNumber\<close> of a string, for the integers of this model: surrounding white space
  (tab, line feed, vertical tab, form feed, carriage return, space, no-break space) is
  dropped, the empty text is 0, an optionally signed run of digits is its value, and
  anything else is \<open>NaN\<close> (\<open>None\<close>).
\<close>

definition is_digit :: "char \<Rightarrow> bool" where
  "is_digit c = (48 \<le> (of_char c :: nat) \<and> (of_char c :: nat) \<le> 57)"

definition digits_value :: "string \<Rightarrow> nat" where
  "digits_value ds = foldl (\<lambda>acc c. 10 * acc + ((of_char c :: nat) - 48)) 0 ds"

definition white_space :: "char \<Rightarrow> bool" where
  "white_space c = ((of_char c :: nat) \<in> {9, 10, 11, 12, 13, 32, 160})"

definition trim :: "string \<Rightarrow> string" where
  "trim x = rev (dropWhile white_space (rev (dropWhile white_space x)))"

definition string_to_number :: "string \<Rightarrow> int option" where
  "string_to_number x =
     (let t = trim x in
      if t = [] then Some 0
      else if hd t = CHR ''-'' \<and> tl t \<noteq> [] \<and> list_all is_digit (tl t)
      then Some (- int (digits_value (tl t)))
      else if hd t = CHR ''+'' \<and> tl t \<noteq> [] \<and> list_all is_digit (tl t)
      then Some (int (digits_value (tl t)))
      else if list_all is_digit t then Some (int (digits_value t))
      else None)"

datatype prim = PUndefined | PNull | PBool bool | PNum int | PStr string

fun to_primitive :: "json option \<Rightarrow> prim" where
  "to_primitive None = PUndefined"
| "to_primitive (Some JNull) = PNull"
| "to_primitive (Some (JBool b)) = PBool b"
| "to_primitive (Some (JNum n)) = PNum n"
| "to_primitive (Some (JStr x)) = PStr x"
| "to_primitive (Some (JArr xs)) = PStr (js_join xs)"
| "to_primitive (Some (JObj kvs)) = PStr ''[object Object]''"

fun to_number :: "prim \<Rightarrow> int option" where
  "to_number PUndefined = None"
| "to_number PNull = Some 0"
| "to_number (PBool b) = Some (if b then 1 else 0)"
| "to_number (PNum n) = Some n"
| "to_number (PStr x) = string_to_number x"

text \<open>The matcher's order of two texts: by their code units.\<close>

fun str_less :: "string \<Rightarrow> string \<Rightarrow> bool" where
  "str_less [] [] = False"
| "str_less [] (y # ys) = True"
| "str_less (x # xs) [] = False"
| "str_less (x # xs) (y # ys) =
     ((of_char x :: nat) < of_char y \<or> (x = y \<and> str_less xs ys))"

text \<open>
  The relational comparison \<open>a < b\<close> of the language: two texts are compared as texts,
  anything else as numbers; the result is undefined (\<open>None\<close>) when a side is \<open>NaN\<close>.
  \<open>a < b\<close> holds when the comparison of \<open>a\<close> with \<open>b\<close> is true, \<open>a > b\<close> when that of \<open>b\<close>
  with \<open>a\<close> is true, \<open>a <= b\<close> when that of \<open>b\<close> with \<open>a\<close> is false, and \<open>a >= b\<close> when
  that of \<open>a\<close> with \<open>b\<close> is false.
\<close>

definition js_less :: "json option \<Rightarrow> json option \<Rightarrow> bool option" where
  "js_less a b =
     (case (to_primitive a, to_primitive b) of
        (PStr x, PStr y) \<Rightarrow> Some (str_less x y)
      | (pa, pb) \<Rightarrow>
          (case (to_number pa, to_number pb) of
             (Some m, Some n) \<Rightarrow> Some (m < n)
           | _ \<Rightarrow> None))"

text \<open>One round of the loop of \<open>Query.matches\<close>: whether the filter lets the document
  pass. The \<open>switch\<close> has no case for \<open>LIKE\<close>.\<close>

definition passes :: "where_filter \<Rightarrow> (string \<times> json) list \<Rightarrow> bool" where
  "passes f d =
     (let docValue = obj_get d (f_field f); v = f_value f in
      case f_op f of
        W_eq \<Rightarrow> strict_eq docValue v
      | W_ne \<Rightarrow> \<not> strict_eq docValue v
      | W_gt \<Rightarrow> js_less (Some v) docValue = Some True
      | W_lt \<Rightarrow> js_less docValue (Some v) = Some True
      | W_ge \<Rightarrow> js_less docValue (Some v) = Some False
      | W_le \<Rightarrow> js_less (Some v) docValue = Some False
      | W_in \<Rightarrow> (case v of JArr xs \<Rightarrow> list_ex (strict_eq docValue) xs | _ \<Rightarrow> False)
      | W_array_contains \<Rightarrow>
          (case docValue of
             Some (JArr xs) \<Rightarrow> list_ex (\<lambda>x. strict_eq (Some x) v) xs
           | _ \<Rightarrow> False)
      | W_LIKE \<Rightarrow> True)"

fun matches :: "where_filter list \<Rightarrow> (string \<times> json) list \<Rightarrow> bool" where
  "matches [] d = True"
| "matches (f # fs) d = (if \<not> passes f d then False else matches fs d)"

section \<open>Worker: the query endpoint's filter compilation\<close>

text \<open>
  The loop of the query handler over the parsed filters. A filter whose field does not
  match \<open>/^[a-zA-Z0-9.]+$/\<close> is skipped; otherwise the operator decides the clause that
  is appended to the \<open>WHERE\<close> part and the parameters that are bound to it. An \<open>in\<close>
  filter whose value is not an array appends nothing.
\<close>

definition field_char :: "char \<Rightarrow> bool" where
  "field_char c =
     (let n = (of_char c :: nat) in
      (97 \<le> n \<and> n \<le> 122) \<or> (65 \<le> n \<and> n \<le> 90) \<or> (48 \<le> n \<and> n \<le> 57) \<or> c = CHR ''.'')"

definition field_ok :: "string \<Rightarrow> bool" where
  "field_ok fld = (fld \<noteq> [] \<and> list_all field_char fld)"

datatype sql_cond =
    Compare string WhereFilterOp json
  | InList string "json list"
  | ExistsEach string json
  | Like string json

definition compile_filter :: "where_filter \<Rightarrow> sql_cond option" where
  "compile_filter f =
     (if \<not> field_ok (f_field f) then None
      else case f_op f of
             W_in \<Rightarrow> (case f_value f of JArr xs \<Rightarrow> Some (InList (f_field f) xs) | _ \<Rightarrow> None)
           | W_array_contains \<Rightarrow> Some (ExistsEach (f_field f) (f_value f))
           | W_LIKE \<Rightarrow> Some (Like (f_field f) (f_value f))
           | cmp \<Rightarrow> Some (Compare (f_field f) cmp (f_value f)))"

fun compile_filters :: "where_filter list \<Rightarrow> sql_cond list" where
  "compile_filters [] = []"
| "compile_filters (f # fs) =
     (case compile_filter f of
        None \<Rightarrow> compile_filters fs
      | Some c \<Rightarrow> c # compile_filters fs)"

section \<open>The storage engine's evaluation of a compiled clause\<close>

text \<open>
  SQL values of the engine, as far as the clauses need them: \<open>NULL\<close>, integers and
  texts. A bound parameter is \<open>NULL\<close> for \<open>null\<close>, 1 or 0 for a boolean, the number or the
  text; an array or object cannot be bound, and the statement fails.
\<close>

datatype sqlval = SNull | SInt int | SText string

fun bind_param :: "json \<Rightarrow> sqlval option" where
  "bind_param JNull = Some SNull"
| "bind_param (JBool b) = Some (SInt (if b then 1 else 0))"
| "bind_param (JNum n) = Some (SInt n)"
| "bind_param (JStr x) = Some (SText x)"
| "bind_param (JArr xs) = None"
| "bind_param (JObj kvs) = None"

text \<open>The text of a JSON value as \<open>JSON.stringify\<close> writes it into the \<open>data\<close> column.\<close>

definition hex_digit :: "nat \<Rightarrow> char" where
  "hex_digit n = (if n < 10 then char_of (48 + n) else char_of (87 + n))"

definition escape_char :: "char \<Rightarrow> string" where
  "escape_char c =
     (let n = (of_char c :: nat) in
      if c = CHR 0x22 then [CHR 0x5C, CHR 0x22]
      else if c = CHR 0x5C then [CHR 0x5C, CHR 0x5C]
      else if n = 8 then [CHR 0x5C, CHR ''b'']
      else if n = 9 then [CHR 0x5C, CHR ''t'']
      else if n = 10 then [CHR 0x5C, CHR ''n'']
      else if n = 12 then [CHR 0x5C, CHR ''f'']
      else if n = 13 then [CHR 0x5C, CHR ''r'']
      else if n < 32 then [CHR 0x5C, CHR ''u'', CHR ''0'', CHR ''0'', hex_digit (n div 16), hex_digit (n mod 16)]
      else [c])"

definition quoted :: "string \<Rightarrow> string" where
  "quoted x = [CHR 0x22] @ concat (map escape_char x) @ [CHR 0x22]"

fun render :: "json \<Rightarrow> string"
  and render_elems :: "json list \<Rightarrow> string"
  and render_members :: "(string \<times> json) list \<Rightarrow> string"
where
  "render JNull = ''null''"
| "render (JBool b) = (if b then ''true'' else ''false'')"
| "render (JNum n) = decimal n"
| "render (JStr x) = quoted x"
| "render (JArr xs) = ''['' @ render_elems xs @ '']''"
| "render (JObj kvs) = ''{'' @ render_members kvs @ ''}''"
| "render_elems [] = []"
| "render_elems [x] = render x"
| "render_elems (x # y # ys) = render x @ '','' @ render_elems (y # ys)"
| "render_members [] = []"
| "render_members [(k, v)] = quoted k @ '':'' @ render v"
| "render_members ((k, v) # kv # kvs) =
     quoted k @ '':'' @ render v @ '','' @ render_members (kv # kvs)"

text \<open>
  The SQL value of a JSON element, as \<open>json_extract\<close> and the \<open>value\<close> column of
  \<open>json_each\<close> give it: \<open>NULL\<close> for \<open>null\<close>, 1 or 0 for a boolean, the number, the text of a
  string, and the JSON text of an array or object.
\<close>

fun to_sql :: "json \<Rightarrow> sqlval" where
  "to_sql JNull = SNull"
| "to_sql (JBool b) = SInt (if b then 1 else 0)"
| "to_sql (JNum n) = SInt n"
| "to_sql (JStr x) = SText x"
| "to_sql (JArr xs) = SText (render (JArr xs))"
| "to_sql (JObj kvs) = SText (render (JObj kvs))"

text \<open>
  The element at the path \<open>$.<field>\<close>: the field is read as labels separated by dots;
  each label selects a member of an object. An empty label is a malformed path. A
  label applied to anything but an object, or a missing member, selects nothing.
\<close>

fun json_at :: "json \<Rightarrow> string list \<Rightarrow> json option" where
  "json_at j [] = Some j"
| "json_at (JObj kvs) (l # ls) =
     (case obj_get kvs l of None \<Rightarrow> None | Some x \<Rightarrow> json_at x ls)"
| "json_at j (l # ls) = None"

datatype sql_error = MalformedPath | MalformedJson

definition path_element :: "json \<Rightarrow> string \<Rightarrow> sql_error + json option" where
  "path_element dat fld =
     (let labels = split CHR ''.'' fld in
      if list_ex (\<lambda>l. l = []) labels then Inl MalformedPath else Inr (json_at dat labels))"

definition json_extract :: "json \<Rightarrow> string \<Rightarrow> sql_error + sqlval" where
  "json_extract dat fld =
     (case path_element dat fld of
        Inl e \<Rightarrow> Inl e
      | Inr None \<Rightarrow> Inr SNull
      | Inr (Some j) \<Rightarrow> Inr (to_sql j))"

text \<open>
  The UTF-8 bytes of a text: a character below 128 is one byte, and a character from
  128 to 255 is the two bytes \<open>0xC0 + c div 64\<close> and \<open>0x80 + c mod 64\<close>.
\<close>

definition utf8_char :: "char \<Rightarrow> string" where
  "utf8_char c =
     (let n = (of_char c :: nat) in
      if n < 128 then [c] else [char_of (192 + n div 64), char_of (128 + n mod 64)])"

definition utf8 :: "string \<Rightarrow> string" where
  "utf8 x = concat (map utf8_char x)"

text \<open>
  Comparison of two values that have no column affinity: any comparison with \<open>NULL\<close>
  is \<open>NULL\<close> (\<open>None\<close>); an integer is less than any text; integers compare by value and
  texts by their UTF-8 bytes (the \<open>BINARY\<close> collation).
\<close>

fun sql_less :: "sqlval \<Rightarrow> sqlval \<Rightarrow> bool" where
  "sql_less (SInt m) (SInt n) = (m < n)"
| "sql_less (SInt m) (SText y) = True"
| "sql_less (SText x) (SInt n) = False"
| "sql_less (SText x) (SText y) = str_less (utf8 x) (utf8 y)"
| "sql_less a b = False"

definition sql_compare :: "WhereFilterOp \<Rightarrow> sqlval \<Rightarrow> sqlval \<Rightarrow> bool option" where
  "sql_compare cmp a b =
     (if a = SNull \<or> b = SNull then None
      else Some (case cmp of
                   W_eq \<Rightarrow> a = b
                 | W_ne \<Rightarrow> a \<noteq> b
                 | W_lt \<Rightarrow> sql_less a b
                 | W_le \<Rightarrow> \<not> sql_less b a
                 | W_gt \<Rightarrow> sql_less b a
                 | W_ge \<Rightarrow> \<not> sql_less a b
                 | other \<Rightarrow> False))"

text \<open>\<open>x IN (y1, ..., yn)\<close>: false for the empty list; true when some \<open>yi\<close> equals \<open>x\<close>;
  otherwise \<open>NULL\<close> when \<open>x\<close> or some \<open>yi\<close> is \<open>NULL\<close>, and false when none is.\<close>

definition sql_in :: "sqlval \<Rightarrow> sqlval list \<Rightarrow> bool option" where
  "sql_in x ys =
     (if ys = [] then Some False
      else if x \<noteq> SNull \<and> list_ex (\<lambda>y. y = x) ys then Some True
      else if x = SNull \<or> list_ex (\<lambda>y. y = SNull) ys then None
      else Some False)"

text \<open>\<open>x LIKE pattern\<close> on texts: \<open>%\<close> stands for any run of characters and \<open>_\<close> for any
  one character; letters of ASCII match without regard to case. An integer operand is
  taken as its decimal text.\<close>

definition to_lower :: "char \<Rightarrow> char" where
  "to_lower c =
     (let n = (of_char c :: nat) in if 65 \<le> n \<and> n \<le> 90 then char_of (n + 32) else c)"

fun like_match :: "string \<Rightarrow> string \<Rightarrow> bool" where
  "like_match [] x = (x = [])"
| "like_match (p # ps) [] = (p = CHR ''%'' \<and> like_match ps [])"
| "like_match (p # ps) (c # cs) =
     (if p = CHR ''%'' then like_match ps (c # cs) \<or> like_match (p # ps) cs
      else (p = CHR ''_'' \<or> to_lower p = to_lower c) \<and> like_match ps cs)"

fun sql_text :: "sqlval \<Rightarrow> string option" where
  "sql_text SNull = None"
| "sql_text (SInt n) = Some (decimal n)"
| "sql_text (SText x) = Some x"

definition sql_like :: "sqlval \<Rightarrow> sqlval \<Rightarrow> bool option" where
  "sql_like x pat =
     (case (sql_text x, sql_text pat) of
        (Some t, Some p) \<Rightarrow> Some (like_match p t)
      | _ \<Rightarrow> None)"

text \<open>
  The rows of \<open>json_each(json_extract(data, '$.<field>'))\<close>, by their \<open>value\<close> column:
  none when the path selects nothing or \<open>null\<close>; the elements of an array; the member
  values of an object; the value itself for a number or boolean. A string is handed to
  \<open>json_each\<close> as a plain text, which it parses as JSON; this is taken to fail.
\<close>

definition each_values :: "json \<Rightarrow> string \<Rightarrow> sql_error + sqlval list" where
  "each_values dat fld =
     (case path_element dat fld of
        Inl e \<Rightarrow> Inl e
      | Inr None \<Rightarrow> Inr []
      | Inr (Some JNull) \<Rightarrow> Inr []
      | Inr (Some (JArr xs)) \<Rightarrow> Inr (map to_sql xs)
      | Inr (Some (JObj kvs)) \<Rightarrow> Inr (map (\<lambda>kv. to_sql (snd kv)) kvs)
      | Inr (Some (JStr x)) \<Rightarrow> Inl MalformedJson
      | Inr (Some j) \<Rightarrow> Inr [to_sql j])"

text \<open>
  The value of a clause on a row's data: an error, or true, false or \<open>NULL\<close> (\<open>None\<close>).
  The parameters are bound first; a parameter that cannot be bound is an error.
\<close>

datatype clause_error = BindError | SqlError sql_error

definition eval_cond :: "sql_cond \<Rightarrow> json \<Rightarrow> clause_error + bool option" where
  "eval_cond c dat =
     (case c of
        Compare fld cmp v \<Rightarrow>
          (case bind_param v of
             None \<Rightarrow> Inl BindError
           | Some p \<Rightarrow>
               (case json_extract dat fld of
                  Inl e \<Rightarrow> Inl (SqlError e)
                | Inr x \<Rightarrow> Inr (sql_compare cmp x p)))
      | InList fld vs \<Rightarrow>
          (if list_ex (\<lambda>v. bind_param v = None) vs then Inl BindError
           else case json_extract dat fld of
                  Inl e \<Rightarrow> Inl (SqlError e)
                | Inr x \<Rightarrow> Inr (sql_in x (map (\<lambda>v. the (bind_param v)) vs)))
      | ExistsEach fld v \<Rightarrow>
          (case bind_param v of
             None \<Rightarrow> Inl BindError
           | Some p \<Rightarrow>
               (case each_values dat fld of
                  Inl e \<Rightarrow> Inl (SqlError e)
                | Inr rows \<Rightarrow> Inr (Some (list_ex (\<lambda>x. sql_compare W_eq x p = Some True) rows))))
      | Like fld v \<Rightarrow>
          (case bind_param v of
             None \<Rightarrow> Inl BindError
           | Some p \<Rightarrow>
               (case json_extract dat fld of
                  Inl e \<Rightarrow> Inl (SqlError e)
                | Inr x \<Rightarrow> Inr (sql_like x p))))"

text \<open>
  Whether the compiled query returns a document with this payload, the document being
  live, in the queried workspace and within the limit: every clause is true on its
  data. A clause that is false or \<open>NULL\<close> excludes the row, and an error fails the query.
\<close>

definition server_returns :: "where_filter list \<Rightarrow> (string \<times> json) list \<Rightarrow> bool" where
  "server_returns fs d =
     list_all (\<lambda>c. eval_cond c (JObj d) = Inr (Some True)) (compile_filters fs)"

section \<open>The filters on which the matcher and the compiled query agree\<close>

text \<open>
  A value can be bound as a parameter unless it is an array or an object. Booleans and
  numbers are the numeric values: the engine holds a boolean as 1 or 0. A text is
  ASCII when all its characters are below 128.
\<close>

fun bindable :: "json \<Rightarrow> bool" where
  "bindable (JArr xs) = False"
| "bindable (JObj kvs) = False"
| "bindable j = True"

fun numeric :: "json \<Rightarrow> bool" where
  "numeric (JBool b) = True"
| "numeric (JNum n) = True"
| "numeric j = False"

definition ascii :: "string \<Rightarrow> bool" where
  "ascii x = list_all (\<lambda>c. (of_char c :: nat) < 128) x"

text \<open>
  The pairs of a JSON element and a filter value that the engine's \<open>=\<close> finds equal:
  two booleans, two numbers or two strings with the same value; a boolean and the
  number 1 or 0 that stands for it; an array or object and the string that is its JSON
  text. \<open>null\<close> equals nothing.
\<close>

fun sql_equal :: "json \<Rightarrow> json \<Rightarrow> bool" where
  "sql_equal (JBool a) (JBool b) = (a = b)"
| "sql_equal (JBool a) (JNum n) = (n = (if a then 1 else 0))"
| "sql_equal (JNum m) (JBool b) = (m = (if b then 1 else 0))"
| "sql_equal (JNum m) (JNum n) = (m = n)"
| "sql_equal (JStr x) (JStr y) = (x = y)"
| "sql_equal (JArr xs) (JStr y) = (render (JArr xs) = y)"
| "sql_equal (JObj kvs) (JStr y) = (render (JObj kvs) = y)"
| "sql_equal j v = False"

text \<open>
  The pairs on which the matcher's \<open>===\<close> and the engine's \<open>=\<close> differ: \<open>null\<close> with \<open>null\<close>
  (strictly equal, and \<open>NULL\<close> to the engine); a boolean with the number 1 or 0 that
  stands for it, and an array or object with the string that is its JSON text (equal to
  the engine, and of different types to the matcher).
\<close>

fun eq_clash :: "json \<Rightarrow> json \<Rightarrow> bool" where
  "eq_clash JNull JNull = True"
| "eq_clash (JBool a) (JNum n) = (n = (if a then 1 else 0))"
| "eq_clash (JNum m) (JBool b) = (m = (if b then 1 else 0))"
| "eq_clash (JArr xs) (JStr y) = (render (JArr xs) = y)"
| "eq_clash (JObj kvs) (JStr y) = (render (JObj kvs) = y)"
| "eq_clash j v = False"

text \<open>
  The pairs that both sides order alike: two numeric values, and two ASCII strings.
\<close>

fun ordered_alike :: "json \<Rightarrow> json \<Rightarrow> bool" where
  "ordered_alike (JStr x) (JStr y) = (ascii x \<and> ascii y)"
| "ordered_alike j v = (numeric j \<and> numeric v)"

text \<open>
  A plain field is a non-empty run of letters and digits, without a dot. A filter is in
  the fragment for a payload when its field is plain and not the name of an inherited
  property, its operator is not \<open>LIKE\<close>, and the filter value \<open>v\<close> and the payload's member
  \<open>x\<close> of that name are as follows:
  \<^item> \<open>==\<close>: \<open>x\<close> is missing, or the two equalities do not differ on \<open>x\<close> and \<open>v\<close>;
  \<^item> \<open>!=\<close>: \<open>x\<close> is present, and either both \<open>x\<close> and \<open>v\<close> are \<open>null\<close>, or neither is, \<open>v\<close> can
    be bound and the two equalities do not differ on \<open>x\<close> and \<open>v\<close>;
  \<^item> \<open><\<close>, \<open><=\<close>, \<open>>\<close>, \<open>>=\<close>: \<open>x\<close> is missing, or \<open>x\<close> and \<open>v\<close> are both numeric or both ASCII
    strings;
  \<^item> \<open>in\<close>: \<open>v\<close> is an array, and \<open>x\<close> is missing, or every element of \<open>v\<close> can be bound and
    the two equalities differ on \<open>x\<close> and none of them, or some element cannot be bound
    and \<open>x\<close> is an array, an object or not among the elements;
  \<^item> \<open>array-contains\<close>: \<open>v\<close> cannot be bound, or \<open>x\<close> is missing or \<open>null\<close>, or \<open>x\<close> is an array
    and the two equalities differ on none of its elements and \<open>v\<close>, or \<open>x\<close> is an object
    none of whose member values the engine finds equal to \<open>v\<close>, or \<open>x\<close> is a boolean or
    number that the engine does not find equal to \<open>v\<close>. A string \<open>x\<close> is left out: the
    engine parses it as JSON text.
\<close>

definition plain_field :: "string \<Rightarrow> bool" where
  "plain_field fld = (fld \<noteq> [] \<and> list_all (\<lambda>c. field_char c \<and> c \<noteq> CHR ''.'') fld)"

definition in_fragment :: "where_filter \<Rightarrow> (string \<times> json) list \<Rightarrow> bool" where
  "in_fragment f d =
     (plain_field (f_field f) \<and> f_field f \<notin> set inherited_properties \<and>
      (let x = obj_get d (f_field f); v = f_value f in
       case f_op f of
         W_eq \<Rightarrow> (case x of None \<Rightarrow> True | Some j \<Rightarrow> \<not> eq_clash j v)
       | W_ne \<Rightarrow>
           (case x of
              None \<Rightarrow> False
            | Some j \<Rightarrow>
                if j = JNull \<or> v = JNull then j = JNull \<and> v = JNull
                else bindable v \<and> \<not> eq_clash j v)
       | W_lt \<Rightarrow> (case x of None \<Rightarrow> True | Some j \<Rightarrow> ordered_alike j v)
       | W_le \<Rightarrow> (case x of None \<Rightarrow> True | Some j \<Rightarrow> ordered_alike j v)
       | W_gt \<Rightarrow> (case x of None \<Rightarrow> True | Some j \<Rightarrow> ordered_alike j v)
       | W_ge \<Rightarrow> (case x of None \<Rightarrow> True | Some j \<Rightarrow> ordered_alike j v)
       | W_in \<Rightarrow>
           (case v of
              JArr xs \<Rightarrow>
                (case x of
                   None \<Rightarrow> True
                 | Some j \<Rightarrow>
                     if list_all bindable xs then list_all (\<lambda>e. \<not> eq_clash j e) xs
                     else \<not> bindable j \<or> list_all (\<lambda>e. e \<noteq> j) xs)
            | _ \<Rightarrow> False)
       | W_array_contains \<Rightarrow>
           \<not> bindable v \<or>
           (case x of
              None \<Rightarrow> True
            | Some JNull \<Rightarrow> True
            | Some (JArr xs) \<Rightarrow> list_all (\<lambda>e. \<not> eq_clash e v) xs
            | Some (JObj kvs) \<Rightarrow> list_all (\<lambda>kv. \<not> sql_equal (snd kv) v) kvs
            | Some (JStr y) \<Rightarrow> False
            | Some j \<Rightarrow> \<not> sql_equal j v)
       | W_LIKE \<Rightarrow> False))"

text \<open>Example filters and payloads: a field name with an underscore, and a \<open>LIKE\<close>.\<close>

definition filter_first_name :: where_filter where
  "filter_first_name = \<lparr>f_field = ''first_name'', f_op = W_eq, f_value = JStr ''bob''\<rparr>"

definition payload_alice :: "(string \<times> json) list" where
  "payload_alice = [(''first_name'', JStr ''alice'')]"

definition filter_like :: where_filter where
  "filter_like = \<lparr>f_field = ''name'', f_op = W_LIKE, f_value = JStr ''a%''\<rparr>"

definition payload_bob :: "(string \<times> json) list" where
  "payload_bob = [(''name'', JStr ''bob'')]"

definition filters_tasks :: "where_filter list" where
  "filters_tasks =
     [\<lparr>f_field = ''status'', f_op = W_eq, f_value = JStr ''active''\<rparr>,
      \<lparr>f_field = ''priority'', f_op = W_ge, f_value = JNum 3\<rparr>,
      \<lparr>f_field = ''tags'', f_op = W_array_contains, f_value = JStr ''x''\<rparr>]"

definition payload_task :: "(string \<times> json) list" where
  "payload_task =
     [(''status'', JStr ''active''), (''priority'', JNum 5), (''tags'', JArr [JStr ''y'', JStr ''x''])]"

text \<open>The filters of the SDK's unit test of a query with two conditions, and two of its
  payloads.\<close>

definition filters_adults :: "where_filter list" where
  "filters_adults =
     [\<lparr>f_field = ''age'', f_op = W_ge, f_value = JNum 18\<rparr>,
      \<lparr>f_field = ''active'', f_op = W_eq, f_value = JBool True\<rparr>]"

definition payload_adult :: "(string \<times> json) list" where
  "payload_adult = [(''age'', JNum 20), (''active'', JBool True)]"

definition payload_minor :: "(string \<times> json) list" where
  "payload_minor = [(''age'', JNum 15), (''active'', JBool True)]"

section \<open>Path parsing: lemmas\<close>

lemma split_not_Nil: "split c s \<noteq> []"
  by (induction s) (auto split: list.splits)

lemma join_split: "join [c] (split c s) = s"
proof (induction s)
  case Nil
  show ?case by simp
next
  case (Cons x xs)
  show ?case
  proof (cases "x = c")
    case True
    obtain w ws where sp: "split c xs = w # ws"
      using split_not_Nil [of c xs] by (cases "split c xs") auto
    from True sp Cons show ?thesis by simp
  next
    case False
    obtain w ws where sp: "split c xs = w # ws"
      using split_not_Nil [of c xs] by (cases "split c xs") auto
    from False sp Cons show ?thesis by (cases ws) auto
  qed
qed

lemma join_butlast_last:
  "2 \<le> length xs \<Longrightarrow> join sep (butlast xs) @ sep @ last xs = join sep xs"
proof (induction sep xs rule: join.induct)
  case (1 sep)
  then show ?case by simp
next
  case (2 sep x)
  then show ?case by simp
next
  case (3 sep x y ys)
  show ?case
  proof (cases ys)
    case Nil
    then show ?thesis by simp
  next
    case (Cons z zs)
    with 3 show ?thesis by simp
  qed
qed

lemma doc_path_id:
  assumes "even (length (split CHR ''/'' p))"
  shows "\<exists>r. doc p = Inr r \<and> path r = p"
proof -
  let ?parts = "split CHR ''/'' p"
  have ne: "?parts \<noteq> []" by (rule split_not_Nil)
  with assms have len: "2 \<le> length ?parts"
    by (cases ?parts) (auto simp: Suc_le_eq)
  have le: "last_elem ?parts = Some (last ?parts)"
    using ne by (cases ?parts) (auto simp: last_elem_def)
  have d: "doc p = Inr \<lparr>collectionPath = join ''/'' (butlast ?parts), ref_id = last ?parts\<rparr>"
    using assms le by (simp add: doc_def Let_def slice_init_def even_iff_mod_2_eq_zero)
  have "join ''/'' (butlast ?parts) @ ''/'' @ last ?parts = join ''/'' ?parts"
    using len by (rule join_butlast_last)
  also have "\<dots> = p" by (rule join_split)
  finally show ?thesis using d by (simp add: path_def)
qed

section \<open>Rules engine: lemmas\<close>



section \<open>Storage and handlers: lemmas\<close>

lemma select_doc_insert_event [simp]:
  "select_doc (insert_event s eid i ws ty pl) j = select_doc s j"
  by (simp add: select_doc_def insert_event_def Let_def)

lemma find_map_update:
  assumes "\<And>d. d_id (f d) = d_id d"
  shows "find (\<lambda>d. d_id d = j) (map (\<lambda>d. if d_id d = i then f d else d) ds) =
         (if j = i then map_option f (find (\<lambda>d. d_id d = j) ds) else find (\<lambda>d. d_id d = j) ds)"
  using assms by (induction ds) auto

lemma select_doc_update:
  assumes "\<And>d. d_id (f d) = d_id d"
  shows "select_doc (update_where_id s i f) j =
         (if j = i then map_option f (select_doc s j) else select_doc s j)"
  using find_map_update [of f j i "documents s", OF assms]
  by (simp add: select_doc_def update_where_id_def)

lemma events_update_where_id [simp]: "events (update_where_id s i f) = events s"
  by (simp add: update_where_id_def)

lemma events_insert_event:
  "events (insert_event s eid i ws ty pl) =
     events s @ [\<lparr>e_version = event_seq s + 1, e_id = eid, e_doc_id = i, e_workspace_id = ws,
                  e_event_type = ty, e_payload = pl\<rparr>]"
  by (simp add: insert_event_def Let_def)

lemma last_insert_rowid_insert_event [simp]:
  "last_insert_rowid (insert_event s eid i ws ty pl) = event_seq s + 1"
  by (simp add: insert_event_def Let_def)

lemma single_write_publications:
  assumes "select_doc s i = Some d"
  shows "\<forall>p\<in>set (snd (snd (put_handler s rnd c i (b\<lparr>b_expectedVersion := None\<rparr>)))).
           p_version (payload p) = Some (event_seq s + 1)"
    and "\<forall>p\<in>set (snd (snd (patch_handler s rnd c i (b\<lparr>b_expectedVersion := None\<rparr>)))).
           p_version (payload p) = Some (event_seq s + 1)"
    and "\<forall>p\<in>set (snd (snd (delete_handler s rnd i None))).
           p_version (payload p) = Some (event_seq s + 1)"
  using assms
  by (simp_all add: put_handler_def patch_handler_def delete_handler_def Let_def select_doc_update)

lemma batch_handler_failure_no_effect:
  assumes "batch_handler ev s a rnd hdr ops = (r, s', pubs)" and "status r \<noteq> 200"
  shows "s' = s \<and> pubs = []"
  using assms
  by (auto simp: batch_handler_def respond_def Let_def split: sum.splits prod.splits if_splits)

lemma batch_handler_one_version:
  assumes "batch_handler ev s a rnd hdr ops = (r, s', pubs)" and "status r = 200"
  shows "\<forall>p\<in>set pubs. p_version (payload p) = body_version r"
  using assms
  by (auto simp: batch_handler_def respond_def stamp_def Let_def
           split: sum.splits prod.splits if_splits)

section \<open>The version invariant: lemmas\<close>

lemma latest_append:
  "latest_event_version (es @ [e]) i =
     (if e_doc_id e = i then Some (e_version e) else latest_event_version es i)"
  by (simp add: latest_event_version_def)

lemma select_doc_None_iff: "select_doc s i = None \<longleftrightarrow> (\<forall>d\<in>set (documents s). d_id d \<noteq> i)"
  by (auto simp: select_doc_def find_None_iff)

lemma versions_ok_write_existing:
  assumes ok: "versions_ok s"
    and f: "\<And>d. d_id (f d) = d_id d" "\<And>d. d_version (f d) = event_seq s + 1"
  shows "versions_ok (update_where_id (insert_event s eid i ws ty pl) i f)"
  unfolding versions_ok_def
proof
  fix d' assume "d' \<in> set (documents (update_where_id (insert_event s eid i ws ty pl) i f))"
  then obtain d where d: "d \<in> set (documents s)" and d': "d' = (if d_id d = i then f d else d)"
    by (auto simp: update_where_id_def insert_event_def Let_def)
  from ok d have old: "latest_event_version (events s) (d_id d) = Some (d_version d)"
    by (simp add: versions_ok_def)
  show "latest_event_version (events (update_where_id (insert_event s eid i ws ty pl) i f)) (d_id d')
          = Some (d_version d')"
    using old d' f by (simp add: events_insert_event latest_append)
qed

lemma versions_ok_write_new:
  assumes ok: "versions_ok s" and none: "select_doc s i = None"
    and row: "d_id row = i" "d_version row = event_seq s + 1"
  shows "versions_ok ((insert_event s eid i ws ty pl)\<lparr>documents := documents s @ [row],
            last_insert_rowid := n\<rparr>)"
  unfolding versions_ok_def
proof
  fix d' assume "d' \<in> set (documents ((insert_event s eid i ws ty pl)\<lparr>documents := documents s @ [row],
            last_insert_rowid := n\<rparr>))"
  then have "d' \<in> set (documents s) \<or> d' = row" by auto
  then show "latest_event_version (events ((insert_event s eid i ws ty pl)\<lparr>documents := documents s @ [row],
            last_insert_rowid := n\<rparr>)) (d_id d') = Some (d_version d')"
  proof
    assume d: "d' \<in> set (documents s)"
    with none have "d_id d' \<noteq> i" by (simp add: select_doc_None_iff)
    moreover from ok d have "latest_event_version (events s) (d_id d') = Some (d_version d')"
      by (simp add: versions_ok_def)
    ultimately show ?thesis by (simp add: events_insert_event latest_append)
  next
    assume "d' = row"
    with row show ?thesis by (simp add: events_insert_event latest_append)
  qed
qed

lemma documents_insert_event [simp]: "documents (insert_event s eid i ws ty pl) = documents s"
  by (simp add: insert_event_def Let_def)

lemma versions_ok_insert_document:
  assumes ok: "versions_ok s"
    and row: "d_id row = i" "d_version row = event_seq s + 1"
    and ins: "insert_document (insert_event s eid i ws ty pl) row = Inr s2"
  shows "versions_ok s2"
proof -
  from ins row have none: "select_doc s i = None"
    by (auto simp: insert_document_def split: option.splits)
  with ins row have "s2 = (insert_event s eid i ws ty pl)\<lparr>documents := documents s @ [row],
            last_insert_rowid := int (length (documents s)) + 1\<rparr>"
    by (auto simp: insert_document_def)
  with versions_ok_write_new [OF ok none row] show ?thesis by simp
qed

lemma put_handler_versions_ok:
  assumes "versions_ok s" and "put_handler s rnd c i b = (r, s', pubs)" and "successful r"
  shows "versions_ok s'"
proof (cases "select_doc s i")
  case None
  let ?row = "\<lparr>d_id = i, d_workspace_id = js_or (b_workspaceId b) ''default'',
     d_collection_name = c, d_path = full_path (b_parentPath b) c i,
     d_user_id = b_userId b, d_data = b_data b, d_version = event_seq s + 1, d_deleted = False\<rparr>"
  from None assms(2,3) have
    ins: "insert_document (insert_event s (rnd 0) i (js_or (b_workspaceId b) ''default'') Ev_INSERT (b_data b)) ?row = Inr s'"
    by (auto simp: put_handler_def Let_def respond_def successful_def split: sum.splits)
  have row: "d_id ?row = i" "d_version ?row = event_seq s + 1" by simp_all
  from versions_ok_insert_document [OF assms(1) row ins] show ?thesis .
next
  case (Some d)
  show ?thesis
  proof (cases "b_expectedVersion b \<noteq> None \<and> Some (d_version d) \<noteq> b_expectedVersion b")
    case True
    with Some assms show ?thesis by (auto simp: put_handler_def respond_def)
  next
    case False
    with Some assms(2) have "s' = update_where_id
        (insert_event s (rnd 0) i (js_or (b_workspaceId b) ''default'') Ev_SET (b_data b)) i
        (\<lambda>r. r\<lparr>d_data := b_data b, d_version := event_seq s + 1, d_deleted := False\<rparr>)"
      by (auto simp: put_handler_def Let_def)
    then show ?thesis using versions_ok_write_existing [OF assms(1)] by simp
  qed
qed

lemma patch_handler_versions_ok:
  assumes "versions_ok s" and "patch_handler s rnd c i b = (r, s', pubs)" and "successful r"
  shows "versions_ok s'"
proof (cases "select_doc s i")
  case None
  with assms show ?thesis by (auto simp: patch_handler_def respond_def)
next
  case (Some d)
  show ?thesis
  proof (cases "b_expectedVersion b \<noteq> None \<and> Some (d_version d) \<noteq> b_expectedVersion b")
    case True
    with Some assms show ?thesis by (auto simp: patch_handler_def respond_def)
  next
    case False
    with Some assms(2) have "s' = update_where_id
        (insert_event s (rnd 0) i (js_or (b_workspaceId b) ''default'') Ev_UPDATE (b_data b)) i
        (\<lambda>r. r\<lparr>d_data := json_patch (d_data r) (b_data b), d_version := event_seq s + 1,
                d_deleted := False\<rparr>)"
      by (auto simp: patch_handler_def Let_def respond_def split: option.splits)
    then show ?thesis using versions_ok_write_existing [OF assms(1)] by simp
  qed
qed

lemma delete_handler_versions_ok:
  assumes "versions_ok s" and "delete_handler s rnd i x = (r, s', pubs)"
  shows "versions_ok s'"
proof (cases "select_doc s i")
  case None
  with assms show ?thesis by (auto simp: delete_handler_def respond_def)
next
  case (Some d)
  show ?thesis
  proof (cases "x \<noteq> None \<and> Some (d_version d) \<noteq> x")
    case True
    with Some assms show ?thesis by (auto simp: delete_handler_def respond_def)
  next
    case False
    with Some assms(2) have "s' = update_where_id
        (insert_event s (rnd 0) i (d_workspace_id d) Ev_DELETE (JObj [])) i
        (\<lambda>r. r\<lparr>d_deleted := True, d_version := event_seq s + 1\<rparr>)"
      by (auto simp: delete_handler_def Let_def)
    then show ?thesis using versions_ok_write_existing [OF assms(1)] by simp
  qed
qed

lemma create_handler_versions_ok:
  assumes "versions_ok s" and "create_handler s rnd c b = (r, s', pubs)" and "successful r"
  shows "versions_ok s'"
proof (cases "\<not> json_truthy (b_data b) \<or> b_userId b = []")
  case True
  with assms show ?thesis by (auto simp: create_handler_def respond_def)
next
  case False
  let ?row = "\<lparr>d_id = rnd 0, d_workspace_id = js_or (b_workspaceId b) ''default'',
     d_collection_name = c, d_path = full_path (b_parentPath b) c (rnd 0),
     d_user_id = b_userId b, d_data = b_data b, d_version = event_seq s + 1, d_deleted = False\<rparr>"
  from False assms(2,3) have
    ins: "insert_document (insert_event s (rnd 1) (rnd 0) (js_or (b_workspaceId b) ''default'') Ev_INSERT (b_data b)) ?row = Inr s'"
    by (auto simp: create_handler_def Let_def respond_def successful_def split: sum.splits)
  have row: "d_id ?row = rnd 0" "d_version ?row = event_seq s + 1" by simp_all
  from versions_ok_insert_document [OF assms(1) row ins] show ?thesis .
qed


lemma exec_pair_versions_ok:
  assumes ok: "versions_ok s" and tg: "stmt_target ds = Some i"
  shows "versions_ok (exec_stmt (insert_event s eid i ws ty pl) ds)"
proof (cases ds)
  case (InsertEvent x1 x2 x3 x4 x5)
  with tg show ?thesis by simp
next
  case (UpsertDoc j ws' col pth uid dat)
  with tg have j: "j = i" by simp
  show ?thesis
  proof (cases "select_doc s i")
    case None
    let ?row = "\<lparr>d_id = i, d_workspace_id = ws', d_collection_name = col, d_path = pth,
                  d_user_id = uid, d_data = dat, d_version = event_seq s + 1, d_deleted = False\<rparr>"
    have "versions_ok ((insert_event s eid i ws ty pl)\<lparr>documents := documents s @ [?row],
            last_insert_rowid := int (length (documents s)) + 1\<rparr>)"
      by (rule versions_ok_write_new [OF ok None]) simp_all
    with None UpsertDoc j show ?thesis by simp
  next
    case (Some d)
    have "versions_ok (update_where_id (insert_event s eid i ws ty pl) i
            (\<lambda>d. d\<lparr>d_data := dat, d_version := event_seq s + 1, d_deleted := False\<rparr>))"
      by (rule versions_ok_write_existing [OF ok]) simp_all
    with Some UpsertDoc j show ?thesis by simp
  qed
next
  case (UpdateData dat j)
  with tg have j: "j = i" by simp
  have "versions_ok (update_where_id (insert_event s eid i ws ty pl) i
          (\<lambda>d. d\<lparr>d_data := dat, d_version := event_seq s + 1\<rparr>))"
    by (rule versions_ok_write_existing [OF ok]) simp_all
  with UpdateData j show ?thesis by simp
next
  case (MarkDeleted j)
  with tg have j: "j = i" by simp
  have "versions_ok (update_where_id (insert_event s eid i ws ty pl) i
          (\<lambda>d. d\<lparr>d_deleted := True, d_version := event_seq s + 1\<rparr>))"
    by (rule versions_ok_write_existing [OF ok]) simp_all
  with MarkDeleted j show ?thesis by simp
qed

lemma op_pair_versions_ok:
  assumes "op_pair st" and "versions_ok s"
  shows "versions_ok (db_batch s st)"
  using assms
  by (induction st rule: op_pair.induct) (simp_all add: db_batch_def exec_pair_versions_ok)

lemma prepare_op_pair:
  assumes "prepare_op ev s a ws eid opr = Inr (st, pb)" and "op_type opr \<noteq> Op_other"
  shows "op_pair st"
  using assms
  by (auto simp: prepare_op_def Let_def split: if_splits op_type.splits option.splits)

lemma db_batch_append: "db_batch s (st @ sts) = db_batch (db_batch s st) sts"
  by (simp add: db_batch_def)

lemma prepare_ops_versions_ok:
  assumes "prepare_ops ev s a ws rnd k oprs = Inr (sts, pbs)" and "versions_ok s0"
    and "list_all (\<lambda>opr. op_type opr \<noteq> Op_other) oprs"
  shows "versions_ok (db_batch s0 sts)"
  using assms
proof (induction oprs arbitrary: k sts pbs s0)
  case Nil
  then show ?case by (simp add: db_batch_def)
next
  case (Cons opr oprs)
  from Cons.prems(1) obtain st pb sts' pbs' where
    one: "prepare_op ev s a ws (rnd k) opr = Inr (st, pb)" and
    rest: "prepare_ops ev s a ws rnd (Suc k) oprs = Inr (sts', pbs')" and
    sts: "sts = st @ sts'"
    by (auto split: sum.splits prod.splits)
  from Cons.prems(3) have ty: "op_type opr \<noteq> Op_other"
    and tys: "list_all (\<lambda>opr. op_type opr \<noteq> Op_other) oprs" by simp_all
  from one ty have "op_pair st" by (rule prepare_op_pair)
  then have "versions_ok (db_batch s0 st)" using Cons.prems(2) by (rule op_pair_versions_ok)
  with rest have "versions_ok (db_batch (db_batch s0 st) sts')" using tys by (rule Cons.IH)
  with sts show ?case by (simp add: db_batch_append)
qed

lemma batch_handler_versions_ok:
  assumes "versions_ok s" and "batch_handler ev s a rnd hdr oprs = (r, s', pubs)"
    and "list_all (\<lambda>opr. op_type opr \<noteq> Op_other) oprs"
  shows "versions_ok s'"
proof (cases "prepare_ops ev s a (js_or hdr ''default'') rnd 0 oprs")
  case (Inl code)
  with assms show ?thesis by (simp add: batch_handler_def respond_def)
next
  case (Inr p)
  obtain sts pbs where p: "p = (sts, pbs)" by (cases p)
  with Inr assms(1,3) have "versions_ok (db_batch s sts)" by (simp add: prepare_ops_versions_ok)
  with Inr p assms show ?thesis
    by (auto simp: batch_handler_def respond_def Let_def split: if_splits)
qed

lemma fetch_versions_ok:
  assumes "versions_ok s" and "fetch ev s a rnd req = (r, s', pubs)" and "successful r"
    and "known_request req"
  shows "versions_ok s'"
proof (cases req)
  case (Batch_req hdr oprs)
  with assms show ?thesis
    by (auto simp: respond_def split: if_splits dest: batch_handler_versions_ok)
next
  case (Create_req c b)
  with assms show ?thesis
    by (auto simp: respond_def split: if_splits dest: create_handler_versions_ok)
next
  case (Put_req c i b)
  with assms show ?thesis
    by (auto simp: respond_def split: if_splits dest: put_handler_versions_ok)
next
  case (Patch_req c i b)
  with assms show ?thesis
    by (auto simp: respond_def split: if_splits dest: patch_handler_versions_ok)
next
  case (Delete_req c i x)
  with assms show ?thesis
    by (auto simp: respond_def split: if_splits dest: delete_handler_versions_ok)
qed

lemma run_versions_ok:
  assumes "run ev s reqs = Some s'" and "versions_ok s"
    and "list_all (\<lambda>q. known_request (snd (snd q))) reqs"
  shows "versions_ok s'"
  using assms
proof (induction reqs arbitrary: s)
  case Nil
  then show ?case by simp
next
  case (Cons q reqs)
  obtain a rnd req where q: "q = (a, rnd, req)" by (cases q)
  obtain r s1 pubs where f: "fetch ev s a rnd req = (r, s1, pubs)" by (cases "fetch ev s a rnd req")
  with Cons.prems(1) q have ok: "successful r" and rest: "run ev s1 reqs = Some s'"
    by (auto split: if_splits)
  from Cons.prems(3) q have kn: "known_request req"
    and kns: "list_all (\<lambda>q. known_request (snd (snd q))) reqs" by simp_all
  from Cons.prems(2) f ok kn have "versions_ok s1" by (rule fetch_versions_ok)
  with rest show ?case using kns by (rule Cons.IH)
qed

lemma versions_ok_empty: "versions_ok empty_store"
  by (simp add: versions_ok_def empty_store_def)

text \<open>
  With the events matched by the document id alone, whatever workspace they name, the
  version of every document is that of the latest event with its id, after any run of
  successful requests whose batch operations have one of the three types: in the batch,
  the document statement reads \<open>last_insert_rowid()\<close> right after the operation's own event
  was inserted.
\<close>

lemma version_is_latest_event_with_id:
  assumes "run ev empty_store reqs = Some s" and "d \<in> set (documents s)"
    and "list_all (\<lambda>q. known_request (snd (snd q))) reqs"
  shows "latest_event_version (events s) (d_id d) = Some (d_version d)"
proof -
  from assms(1) versions_ok_empty assms(3) have "versions_ok s" by (rule run_versions_ok)
  with assms(2) show ?thesis by (simp add: versions_ok_def)
qed

text \<open>
  A batch operation whose type is none of \<open>SET\<close>, \<open>UPDATE\<close> and \<open>DELETE\<close> falls through the
  batch loop: the request is answered with 200, an event of type \<open>DELETE\<close> is appended for
  the document, and no statement touches the document, which keeps its version.
\<close>

lemma batch_unknown_type_appends_event_only:
  "known_request (Batch_req None
      [\<lparr>op_type = Op_other, op_path = ''items/a'', op_data = None, op_expectedVersion = None\<rparr>]) = False \<and>
   status (fst (fetch ev_throw store_a alice rnd_fixed (Batch_req None
      [\<lparr>op_type = Op_other, op_path = ''items/a'', op_data = None, op_expectedVersion = None\<rparr>]))) = 200 \<and>
   documents (fst (snd (fetch ev_throw store_a alice rnd_fixed (Batch_req None
      [\<lparr>op_type = Op_other, op_path = ''items/a'', op_data = None, op_expectedVersion = None\<rparr>])))) = [doc_a] \<and>
   d_version doc_a = 1 \<and>
   map (\<lambda>e. (e_doc_id e, e_version e, e_event_type e))
     (events (fst (snd (fetch ev_throw store_a alice rnd_fixed (Batch_req None
      [\<lparr>op_type = Op_other, op_path = ''items/a'', op_data = None, op_expectedVersion = None\<rparr>]))))) =
     [(''a'', 1, Ev_INSERT), (''a'', 2, Ev_DELETE)]"
  by code_simp

section \<open>Snapshots: lemmas\<close>

lemma cache_fallback_pending:
  assumes "cache_fallback cl r = Inr snap"
  shows "hasPendingWrites (snap_metadata snap)"
  using assms by (auto simp: cache_fallback_def split: option.splits)

section \<open>Matcher and compiled query: lemmas\<close>

lemma split_no_sep: "c \<notin> set x \<Longrightarrow> split c x = [x]"
  by (induction x) auto

lemma plain_field_ok: "plain_field fld \<Longrightarrow> field_ok fld"
  by (auto simp: plain_field_def field_ok_def list_all_iff)

lemma plain_field_path:
  assumes "plain_field fld"
  shows "path_element (JObj d) fld = Inr (obj_get d fld)"
proof -
  from assms have "CHR ''.'' \<notin> set fld" and ne: "fld \<noteq> []"
    by (auto simp: plain_field_def list_all_iff)
  then have "split CHR ''.'' fld = [fld]" by (simp add: split_no_sep)
  with ne show ?thesis by (simp add: path_element_def split: option.splits)
qed

lemma plain_field_extract:
  assumes "plain_field fld"
  shows "json_extract (JObj d) fld = Inr (case obj_get d fld of None \<Rightarrow> SNull | Some j \<Rightarrow> to_sql j)"
  using plain_field_path [OF assms, of d] by (simp add: json_extract_def split: option.splits)

lemma bindable_bind: "bindable v \<Longrightarrow> \<exists>p. bind_param v = Some p"
  by (cases v) auto

lemma unbindable_bind: "\<not> bindable v \<Longrightarrow> bind_param v = None"
  by (cases v) auto

lemma strict_eq_unbindable: "\<not> bindable v \<Longrightarrow> strict_eq x v = False"
  by (cases v; cases x) auto

lemma strict_eq_undefined: "strict_eq None v = False"
  by simp

lemma strict_eq_value: "strict_eq (Some j) v = (bindable j \<and> j = v)"
  by (cases j; cases v) auto

lemma sql_equal_iff:
  "bind_param v = Some p \<Longrightarrow> (sql_compare W_eq (to_sql j) p = Some True) = sql_equal j v"
  by (cases j; cases v) (auto simp: sql_compare_def split: if_splits)

lemma sql_equal_not_null:
  "bind_param v = Some p \<Longrightarrow> (to_sql j \<noteq> SNull \<and> p = to_sql j) = sql_equal j v"
  by (cases j; cases v) (auto split: if_splits)

lemma sql_unequal_iff:
  "bind_param v = Some p \<Longrightarrow> j \<noteq> JNull \<Longrightarrow> v \<noteq> JNull \<Longrightarrow>
   (sql_compare W_ne (to_sql j) p = Some True) = (\<not> sql_equal j v)"
  by (cases j; cases v) (auto simp: sql_compare_def split: if_splits)

lemma no_clash: "\<not> eq_clash j v \<Longrightarrow> strict_eq (Some j) v = sql_equal j v"
  by (cases j; cases v) auto

lemma clash: "eq_clash j v \<Longrightarrow> strict_eq (Some j) v \<noteq> sql_equal j v"
  by (cases j; cases v) auto

lemma utf8_ascii: "ascii x \<Longrightarrow> utf8 x = x"
  by (induction x) (auto simp: ascii_def utf8_def utf8_char_def)

lemma numeric_less:
  "numeric a \<Longrightarrow> numeric b \<Longrightarrow> js_less (Some a) (Some b) = Some (sql_less (to_sql a) (to_sql b))"
  by (cases a; cases b) (auto simp: js_less_def)

lemma ordered_alike_less:
  assumes "ordered_alike a b"
  shows "js_less (Some a) (Some b) = Some (sql_less (to_sql a) (to_sql b))"
    and "js_less (Some b) (Some a) = Some (sql_less (to_sql b) (to_sql a))"
    and "to_sql a \<noteq> SNull" and "bind_param b = Some (to_sql b)" and "to_sql b \<noteq> SNull"
  using assms by (cases a; cases b; auto simp: js_less_def utf8_ascii)+

lemma js_less_undefined: "js_less None b = None" "js_less a None = None"
  by (auto simp: js_less_def split: prim.splits option.splits)

lemma fragment_eq:
  assumes pf: "plain_field fld"
    and x: "case obj_get d fld of None \<Rightarrow> True | Some j \<Rightarrow> \<not> eq_clash j v"
  shows "(eval_cond (Compare fld W_eq v) (JObj d) = Inr (Some True)) = strict_eq (obj_get d fld) v"
proof (cases "bind_param v")
  case None
  then have "\<not> bindable v" by (cases v) auto
  with None show ?thesis by (simp add: eval_cond_def strict_eq_unbindable)
next
  case (Some p)
  show ?thesis
  proof (cases "obj_get d fld")
    case None
    with Some show ?thesis
      by (simp add: eval_cond_def plain_field_extract [OF pf] sql_compare_def)
  next
    case j: (Some j)
    with x have "\<not> eq_clash j v" by simp
    with Some j show ?thesis
      by (simp add: eval_cond_def plain_field_extract [OF pf] sql_equal_iff no_clash)
  qed
qed

lemma fragment_ne:
  assumes pf: "plain_field fld" and x: "obj_get d fld = Some j"
    and k: "if j = JNull \<or> v = JNull then j = JNull \<and> v = JNull else bindable v \<and> \<not> eq_clash j v"
  shows "(eval_cond (Compare fld W_ne v) (JObj d) = Inr (Some True)) = (\<not> strict_eq (obj_get d fld) v)"
proof (cases "j = JNull \<or> v = JNull")
  case True
  with k have "j = JNull" "v = JNull" by simp_all
  with x show ?thesis
    by (simp add: eval_cond_def plain_field_extract [OF pf] sql_compare_def)
next
  case False
  with k have b: "bindable v" and c: "\<not> eq_clash j v" by simp_all
  from b obtain p where p: "bind_param v = Some p" using bindable_bind by blast
  from False have "j \<noteq> JNull" "v \<noteq> JNull" by simp_all
  from sql_unequal_iff [OF p this] x p c show ?thesis
    by (simp add: eval_cond_def plain_field_extract [OF pf] no_clash)
qed

lemma fragment_order:
  assumes pf: "plain_field (f_field f)"
    and x: "case obj_get d (f_field f) of None \<Rightarrow> True | Some j \<Rightarrow> ordered_alike j (f_value f)"
    and cmp: "f_op f \<in> {W_lt, W_le, W_gt, W_ge}"
  shows "(eval_cond (Compare (f_field f) (f_op f) (f_value f)) (JObj d) = Inr (Some True)) = passes f d"
proof (cases "obj_get d (f_field f)")
  case None
  have "eval_cond (Compare (f_field f) (f_op f) (f_value f)) (JObj d) \<noteq> Inr (Some True)"
    using None
    by (simp add: eval_cond_def plain_field_extract [OF pf] sql_compare_def split: option.splits)
  with None cmp show ?thesis
    by (auto simp: passes_def Let_def js_less_undefined)
next
  case (Some j)
  with x have k: "ordered_alike j (f_value f)" by simp
  have "eval_cond (Compare (f_field f) (f_op f) (f_value f)) (JObj d) =
      Inr (sql_compare (f_op f) (to_sql j) (to_sql (f_value f)))"
    using Some ordered_alike_less(4) [OF k]
    by (simp add: eval_cond_def plain_field_extract [OF pf])
  with Some cmp ordered_alike_less [OF k] show ?thesis
    by (auto simp: passes_def Let_def sql_compare_def)
qed

lemma bind_all:
  assumes "list_all bindable xs"
  shows "\<not> list_ex (\<lambda>v. bind_param v = None) xs"
  using assms by (induction xs) (auto dest: bindable_bind)

lemma bind_some:
  assumes "\<not> list_all bindable xs"
  shows "list_ex (\<lambda>v. bind_param v = None) xs"
  using assms by (induction xs) (auto simp: unbindable_bind)

lemma in_bindable:
  assumes "list_all bindable xs" and "list_all (\<lambda>e. \<not> eq_clash j e) xs"
  shows "(to_sql j \<noteq> SNull \<and> list_ex (\<lambda>y. y = to_sql j) (map (\<lambda>v. the (bind_param v)) xs)) =
         list_ex (strict_eq (Some j)) xs"
  using assms
proof (induction xs)
  case Nil
  show ?case by simp
next
  case (Cons e xs)
  then obtain p where p: "bind_param e = Some p" using bindable_bind by auto
  from Cons have c: "\<not> eq_clash j e" by simp
  from Cons have IH: "(to_sql j \<noteq> SNull \<and> list_ex (\<lambda>y. y = to_sql j) (map (\<lambda>v. the (bind_param v)) xs)) =
         list_ex (strict_eq (Some j)) xs" by simp
  from sql_equal_not_null [OF p, of j] no_clash [OF c] IH p show ?case by auto
qed

lemma sql_in_true:
  "(sql_in x ys = Some True) = (x \<noteq> SNull \<and> list_ex (\<lambda>y. y = x) ys)"
  by (cases ys) (auto simp: sql_in_def)

lemma fragment_in:
  assumes pf: "plain_field fld"
    and x: "case obj_get d fld of None \<Rightarrow> True
            | Some j \<Rightarrow> if list_all bindable xs then list_all (\<lambda>e. \<not> eq_clash j e) xs
                        else \<not> bindable j \<or> list_all (\<lambda>e. e \<noteq> j) xs"
  shows "(eval_cond (InList fld xs) (JObj d) = Inr (Some True)) = list_ex (strict_eq (obj_get d fld)) xs"
proof (cases "obj_get d fld")
  case None
  have "\<not> list_ex (strict_eq None) xs" by (induction xs) auto
  with None show ?thesis
    by (simp add: eval_cond_def plain_field_extract [OF pf] sql_in_true)
next
  case (Some j)
  show ?thesis
  proof (cases "list_all bindable xs")
    case True
    with x Some have c: "list_all (\<lambda>e. \<not> eq_clash j e) xs" by simp
    from in_bindable [OF True c] bind_all [OF True] Some show ?thesis
      by (simp add: eval_cond_def plain_field_extract [OF pf] sql_in_true)
  next
    case False
    with x Some have "\<not> bindable j \<or> list_all (\<lambda>e. e \<noteq> j) xs" by simp
    then have "\<not> list_ex (strict_eq (Some j)) xs"
      by (auto simp: strict_eq_value list_ex_iff list_all_iff)
    with bind_some [OF False] Some show ?thesis
      by (simp add: eval_cond_def)
  qed
qed

lemma contains_elements:
  assumes "bind_param v = Some p" and "list_all (\<lambda>e. \<not> eq_clash e v) xs"
  shows "list_ex (\<lambda>x. sql_compare W_eq x p = Some True) (map to_sql xs) =
         list_ex (\<lambda>x. strict_eq (Some x) v) xs"
  using assms by (induction xs) (auto simp: sql_equal_iff no_clash)

lemma contains_members:
  assumes "bind_param v = Some p" and "list_all (\<lambda>kv. \<not> sql_equal (snd kv) v) kvs"
  shows "\<not> list_ex (\<lambda>x. sql_compare W_eq x p = Some True) (map (\<lambda>kv. to_sql (snd kv)) kvs)"
  using assms by (induction kvs) (auto simp: sql_equal_iff)

lemma fragment_contains:
  assumes pf: "plain_field fld"
    and x: "\<not> bindable v \<or>
            (case obj_get d fld of
               None \<Rightarrow> True
             | Some JNull \<Rightarrow> True
             | Some (JArr xs) \<Rightarrow> list_all (\<lambda>e. \<not> eq_clash e v) xs
             | Some (JObj kvs) \<Rightarrow> list_all (\<lambda>kv. \<not> sql_equal (snd kv) v) kvs
             | Some (JStr y) \<Rightarrow> False
             | Some j \<Rightarrow> \<not> sql_equal j v)"
  shows "(eval_cond (ExistsEach fld v) (JObj d) = Inr (Some True)) =
         (case obj_get d fld of Some (JArr xs) \<Rightarrow> list_ex (\<lambda>x. strict_eq (Some x) v) xs | _ \<Rightarrow> False)"
proof (cases "bind_param v")
  case None
  then have "\<not> bindable v" by (cases v) auto
  then have "\<not> list_ex (\<lambda>x. strict_eq (Some x) v) xs" for xs
    by (induction xs) (auto simp: strict_eq_unbindable)
  with None show ?thesis
    by (simp add: eval_cond_def split: option.splits json.splits)
next
  case (Some p)
  then have b: "bindable v" by (cases v) auto
  show ?thesis
  proof (cases "obj_get d fld")
    case None
    with Some show ?thesis
      by (simp add: eval_cond_def each_values_def plain_field_path [OF pf])
  next
    case j: (Some j)
    with x b Some sql_equal_iff [OF Some, of j] show ?thesis
      by (cases j)
         (simp_all add: eval_cond_def each_values_def plain_field_path [OF pf]
            contains_elements contains_members)
  qed
qed

lemma fragment_filter:
  assumes "in_fragment f d"
  shows "\<exists>c. compile_filter f = Some c \<and>
             (eval_cond c (JObj d) = Inr (Some True)) = passes f d"
proof -
  from assms have pf: "plain_field (f_field f)" by (simp add: in_fragment_def)
  then have ok: "field_ok (f_field f)" by (rule plain_field_ok)
  have order: ?thesis
    if cmp: "f_op f \<in> {W_lt, W_le, W_gt, W_ge}"
  proof -
    from assms cmp
    have x: "case obj_get d (f_field f) of None \<Rightarrow> True | Some j \<Rightarrow> ordered_alike j (f_value f)"
      by (auto simp: in_fragment_def Let_def)
    from cmp ok have "compile_filter f = Some (Compare (f_field f) (f_op f) (f_value f))"
      by (auto simp: compile_filter_def)
    with fragment_order [OF pf x cmp] show ?thesis by simp
  qed
  show ?thesis
  proof (cases "f_op f")
    case W_eq
    with assms
    have x: "case obj_get d (f_field f) of None \<Rightarrow> True | Some j \<Rightarrow> \<not> eq_clash j (f_value f)"
      by (simp add: in_fragment_def Let_def)
    from W_eq ok have "compile_filter f = Some (Compare (f_field f) W_eq (f_value f))"
      by (simp add: compile_filter_def)
    with fragment_eq [OF pf x] W_eq show ?thesis
      by (simp add: passes_def Let_def)
  next
    case W_ne
    with assms
    have x: "case obj_get d (f_field f) of None \<Rightarrow> False | Some j \<Rightarrow>
        if j = JNull \<or> f_value f = JNull then j = JNull \<and> f_value f = JNull
        else bindable (f_value f) \<and> \<not> eq_clash j (f_value f)"
      by (simp add: in_fragment_def Let_def)
    have "obj_get d (f_field f) \<noteq> None"
    proof
      assume "obj_get d (f_field f) = None"
      with x show False by simp
    qed
    then obtain j where j: "obj_get d (f_field f) = Some j" by blast
    have k: "if j = JNull \<or> f_value f = JNull then j = JNull \<and> f_value f = JNull
              else bindable (f_value f) \<and> \<not> eq_clash j (f_value f)"
      using x unfolding j option.case .
    from W_ne ok have "compile_filter f = Some (Compare (f_field f) W_ne (f_value f))"
      by (simp add: compile_filter_def)
    with fragment_ne [OF pf j k] W_ne show ?thesis
      by (simp add: passes_def Let_def)
  next
    case W_lt
    then show ?thesis by (simp add: order)
  next
    case W_le
    then show ?thesis by (simp add: order)
  next
    case W_gt
    then show ?thesis by (simp add: order)
  next
    case W_ge
    then show ?thesis by (simp add: order)
  next
    case W_array_contains
    with assms
    have x: "\<not> bindable (f_value f) \<or>
            (case obj_get d (f_field f) of
               None \<Rightarrow> True
             | Some JNull \<Rightarrow> True
             | Some (JArr xs) \<Rightarrow> list_all (\<lambda>e. \<not> eq_clash e (f_value f)) xs
             | Some (JObj kvs) \<Rightarrow> list_all (\<lambda>kv. \<not> sql_equal (snd kv) (f_value f)) kvs
             | Some (JStr y) \<Rightarrow> False
             | Some j \<Rightarrow> \<not> sql_equal j (f_value f))"
      by (simp add: in_fragment_def Let_def)
    from W_array_contains ok have "compile_filter f = Some (ExistsEach (f_field f) (f_value f))"
      by (simp add: compile_filter_def)
    with fragment_contains [OF pf x] W_array_contains show ?thesis
      by (simp add: passes_def Let_def)
  next
    case W_in
    with assms
    have y: "case f_value f of
              JArr xs \<Rightarrow>
                (case obj_get d (f_field f) of
                   None \<Rightarrow> True
                 | Some j \<Rightarrow>
                     if list_all bindable xs then list_all (\<lambda>e. \<not> eq_clash j e) xs
                     else \<not> bindable j \<or> list_all (\<lambda>e. e \<noteq> j) xs)
            | _ \<Rightarrow> False"
      by (simp add: in_fragment_def Let_def)
    show ?thesis
    proof (cases "f_value f")
      case v: (JArr xs)
      have x: "case obj_get d (f_field f) of None \<Rightarrow> True
            | Some j \<Rightarrow> if list_all bindable xs then list_all (\<lambda>e. \<not> eq_clash j e) xs
                        else \<not> bindable j \<or> list_all (\<lambda>e. e \<noteq> j) xs"
        using y unfolding v json.case .
      from W_in ok v have "compile_filter f = Some (InList (f_field f) xs)"
        by (simp add: compile_filter_def)
      with fragment_in [OF pf x] W_in v show ?thesis
        by (simp add: passes_def Let_def)
    qed (use y in simp_all)
  next
    case W_LIKE
    with assms show ?thesis by (simp add: in_fragment_def Let_def)
  qed
qed

lemma equality_differs_on_clash:
  assumes pf: "plain_field fld" and x: "obj_get d fld = Some j" and c: "eq_clash j v"
  shows "(eval_cond (Compare fld W_eq v) (JObj d) = Inr (Some True)) \<noteq> strict_eq (obj_get d fld) v"
proof -
  from c have "bindable v" by (cases j; cases v) auto
  then obtain p where p: "bind_param v = Some p" using bindable_bind by blast
  from x p have "(eval_cond (Compare fld W_eq v) (JObj d) = Inr (Some True)) = sql_equal j v"
    by (simp add: eval_cond_def plain_field_extract [OF pf] sql_equal_iff)
  with clash [OF c] x show ?thesis by simp
qed

lemma matcher_and_query_differ:
  "matches [filter_like] payload_bob = True \<and>
   server_returns [filter_like] payload_bob = False \<and>
   matches [\<lparr>f_field = ''status'', f_op = W_ne, f_value = JStr ''deleted''\<rparr>] [] = True \<and>
   server_returns [\<lparr>f_field = ''status'', f_op = W_ne, f_value = JStr ''deleted''\<rparr>] [] = False \<and>
   matches [\<lparr>f_field = ''a.b'', f_op = W_eq, f_value = JNum 1\<rparr>] [(''a'', JObj [(''b'', JNum 1)])] = False \<and>
   server_returns [\<lparr>f_field = ''a.b'', f_op = W_eq, f_value = JNum 1\<rparr>] [(''a'', JObj [(''b'', JNum 1)])] = True \<and>
   matches [\<lparr>f_field = ''n'', f_op = W_lt, f_value = JNum 5\<rparr>] [(''n'', JStr ''10'')] = False \<and>
   server_returns [\<lparr>f_field = ''n'', f_op = W_lt, f_value = JNum 5\<rparr>] [(''n'', JStr ''10'')] = False \<and>
   matches [\<lparr>f_field = ''n'', f_op = W_gt, f_value = JNum 50\<rparr>] [(''n'', JStr ''7'')] = False \<and>
   server_returns [\<lparr>f_field = ''n'', f_op = W_gt, f_value = JNum 50\<rparr>] [(''n'', JStr ''7'')] = True"
  by code_simp

text \<open>
  Single filters on which the two sides differ, by the kinds of the member and the
  value: \<open>null == null\<close>; the number 1 with \<open>== true\<close>; \<open>null < 5\<close>; an \<open>in\<close> filter whose value
  is no array (the handler compiles no clause); \<open>array-contains\<close> of \<open>true\<close> on the array
  \<open>[1]\<close> and of 1 on the number 1; the array \<open>[1]\<close> with \<open>== "[1]"\<close>.
\<close>

lemma matcher_and_query_differ_by_kind:
  "matches [\<lparr>f_field = ''n'', f_op = W_eq, f_value = JNull\<rparr>] [(''n'', JNull)] = True \<and>
   server_returns [\<lparr>f_field = ''n'', f_op = W_eq, f_value = JNull\<rparr>] [(''n'', JNull)] = False \<and>
   matches [\<lparr>f_field = ''n'', f_op = W_eq, f_value = JBool True\<rparr>] [(''n'', JNum 1)] = False \<and>
   server_returns [\<lparr>f_field = ''n'', f_op = W_eq, f_value = JBool True\<rparr>] [(''n'', JNum 1)] = True \<and>
   matches [\<lparr>f_field = ''n'', f_op = W_lt, f_value = JNum 5\<rparr>] [(''n'', JNull)] = True \<and>
   server_returns [\<lparr>f_field = ''n'', f_op = W_lt, f_value = JNum 5\<rparr>] [(''n'', JNull)] = False \<and>
   matches [\<lparr>f_field = ''n'', f_op = W_in, f_value = JNum 5\<rparr>] [(''n'', JNum 5)] = False \<and>
   server_returns [\<lparr>f_field = ''n'', f_op = W_in, f_value = JNum 5\<rparr>] [(''n'', JNum 5)] = True \<and>
   matches [\<lparr>f_field = ''t'', f_op = W_array_contains, f_value = JBool True\<rparr>] [(''t'', JArr [JNum 1])] = False \<and>
   server_returns [\<lparr>f_field = ''t'', f_op = W_array_contains, f_value = JBool True\<rparr>] [(''t'', JArr [JNum 1])] = True \<and>
   matches [\<lparr>f_field = ''t'', f_op = W_array_contains, f_value = JNum 1\<rparr>] [(''t'', JNum 1)] = False \<and>
   server_returns [\<lparr>f_field = ''t'', f_op = W_array_contains, f_value = JNum 1\<rparr>] [(''t'', JNum 1)] = True \<and>
   matches [\<lparr>f_field = ''t'', f_op = W_eq, f_value = JStr ''[1]''\<rparr>] [(''t'', JArr [JNum 1])] = False \<and>
   server_returns [\<lparr>f_field = ''t'', f_op = W_eq, f_value = JStr ''[1]''\<rparr>] [(''t'', JArr [JNum 1])] = True"
  by code_simp

section \<open>Claims\<close>

text \<open>
  C9. Path-parsing round trip: for every document path \<open>p\<close> with an even number of
  \<open>/\<close>-separated segments, \<open>client.doc(p)\<close> returns a reference, \<open>client.doc\<close> of that
  reference's path returns a reference again, and the path of the latter is \<open>p\<close>.
\<close>

theorem C9_doc_path_roundtrip:
  assumes "even (length (split CHR ''/'' p))"
  shows "\<exists>r r'. doc p = Inr r \<and> doc (path r) = Inr r' \<and> path r' = p"
proof -
  from assms obtain r where r: "doc p = Inr r" "path r = p"
    using doc_path_id by blast
  from assms r(2) obtain r' where "doc (path r) = Inr r'" "path r' = p"
    using doc_path_id [of p] by auto
  with r show ?thesis by blast
qed

theorem C9_doc_path_roundtrip_witness:
  "even (length (split CHR ''/'' ''users/u1/posts/p1'')) \<and>
   (\<exists>r r'. doc ''users/u1/posts/p1'' = Inr r \<and> doc (path r) = Inr r' \<and>
      path r' = ''users/u1/posts/p1'')"
proof -
  have e: "even (length (split CHR ''/'' ''users/u1/posts/p1''))" by simp
  show ?thesis using e C9_doc_path_roundtrip [OF e] by blast
qed



text \<open>
  C3. On an existing document, the handlers of \<open>PUT\<close>, \<open>PATCH\<close> and \<open>DELETE\<close> answer a
  supplied \<open>expectedVersion\<close> that differs from the stored version with 409, leaving the
  store as it was and publishing nothing; with \<open>expectedVersion\<close> omitted the write goes
  through whatever the stored version is. The router hands a request that its rules
  check admits to these handlers unchanged.
\<close>

theorem C3_occ:
  assumes "select_doc s i = Some d"
  shows "(x \<noteq> d_version d \<longrightarrow>
            put_handler s rnd c i (b\<lparr>b_expectedVersion := Some x\<rparr>) = respond 409 s \<and>
            patch_handler s rnd c i (b\<lparr>b_expectedVersion := Some x\<rparr>) = respond 409 s \<and>
            delete_handler s rnd i (Some x) = respond 409 s) \<and>
         proceeded s i (put_handler s rnd c i (b\<lparr>b_expectedVersion := None\<rparr>)) \<and>
         proceeded s i (patch_handler s rnd c i (b\<lparr>b_expectedVersion := None\<rparr>)) \<and>
         proceeded s i (delete_handler s rnd i None) \<and>
         (security_check ev c (c @ ''/'' @ i) a \<longrightarrow>
            fetch ev s a rnd (Put_req c i b') = put_handler s rnd c i b' \<and>
            fetch ev s a rnd (Patch_req c i b') = patch_handler s rnd c i b' \<and>
            fetch ev s a rnd (Delete_req c i y) = delete_handler s rnd i y)"
proof (intro conjI impI)
  assume "x \<noteq> d_version d"
  with assms show "put_handler s rnd c i (b\<lparr>b_expectedVersion := Some x\<rparr>) = respond 409 s"
    by (simp add: put_handler_def)
  from assms \<open>x \<noteq> d_version d\<close>
  show "patch_handler s rnd c i (b\<lparr>b_expectedVersion := Some x\<rparr>) = respond 409 s"
    by (simp add: patch_handler_def)
  from assms \<open>x \<noteq> d_version d\<close>
  show "delete_handler s rnd i (Some x) = respond 409 s"
    by (simp add: delete_handler_def)
next
  from assms show "proceeded s i (put_handler s rnd c i (b\<lparr>b_expectedVersion := None\<rparr>))"
    by (simp add: put_handler_def proceeded_def Let_def select_doc_update events_insert_event)
next
  from assms show "proceeded s i (patch_handler s rnd c i (b\<lparr>b_expectedVersion := None\<rparr>))"
    by (simp add: patch_handler_def proceeded_def Let_def select_doc_update events_insert_event)
next
  from assms show "proceeded s i (delete_handler s rnd i None)"
    by (simp add: delete_handler_def proceeded_def Let_def select_doc_update events_insert_event)
next
  assume g: "security_check ev c (c @ ''/'' @ i) a"
  then show "fetch ev s a rnd (Put_req c i b') = put_handler s rnd c i b'" by simp
  from g show "fetch ev s a rnd (Patch_req c i b') = patch_handler s rnd c i b'" by simp
  from g show "fetch ev s a rnd (Delete_req c i y) = delete_handler s rnd i y" by simp
qed

theorem C3_occ_witness:
  "select_doc store_a ''a'' = Some doc_a \<and> 7 \<noteq> d_version doc_a \<and>
   security_check ev_throw ''items'' (''items'' @ ''/'' @ ''a'') alice \<and>
   fetch ev_throw store_a alice rnd_fixed
     (Put_req ''items'' ''a'' ((body_of JNull)\<lparr>b_expectedVersion := Some 7\<rparr>)) = respond 409 store_a \<and>
   fetch ev_throw store_a alice rnd_fixed
     (Patch_req ''items'' ''a'' ((body_of JNull)\<lparr>b_expectedVersion := Some 7\<rparr>)) = respond 409 store_a \<and>
   fetch ev_throw store_a alice rnd_fixed (Delete_req ''items'' ''a'' (Some 7)) = respond 409 store_a \<and>
   proceeded store_a ''a''
     (fetch ev_throw store_a alice rnd_fixed
        (Put_req ''items'' ''a'' ((body_of JNull)\<lparr>b_expectedVersion := None\<rparr>)))"
proof -
  have h: "select_doc store_a ''a'' = Some doc_a"
    by (simp add: select_doc_def store_a_def doc_a_def)
  have v: "7 \<noteq> d_version doc_a" by (simp add: doc_a_def)
  have g: "security_check ev_throw ''items'' (''items'' @ ''/'' @ ''a'') alice" by code_simp
  note T = C3_occ [OF h, where x = 7 and rnd = rnd_fixed and c = "''items''" and b = "body_of JNull"
      and ev = ev_throw and a = alice and y = "Some 7"]
  from T [where b' = "(body_of JNull)\<lparr>b_expectedVersion := Some 7\<rparr>"] v g
  have c1: "fetch ev_throw store_a alice rnd_fixed
     (Put_req ''items'' ''a'' ((body_of JNull)\<lparr>b_expectedVersion := Some 7\<rparr>)) = respond 409 store_a"
    and c2: "fetch ev_throw store_a alice rnd_fixed
     (Patch_req ''items'' ''a'' ((body_of JNull)\<lparr>b_expectedVersion := Some 7\<rparr>)) = respond 409 store_a"
    and c3: "fetch ev_throw store_a alice rnd_fixed (Delete_req ''items'' ''a'' (Some 7)) = respond 409 store_a"
    by metis+
  from T [where b' = "(body_of JNull)\<lparr>b_expectedVersion := None\<rparr>"] g
  have c4: "proceeded store_a ''a''
     (fetch ev_throw store_a alice rnd_fixed
        (Put_req ''items'' ''a'' ((body_of JNull)\<lparr>b_expectedVersion := None\<rparr>)))"
    by metis
  from h v g c1 c2 c3 c4 show ?thesis by blast
qed

text \<open>
  C10. The \<open>DELETE\<close> handler, on a document id that the documents table does not have,
  answers 204 and leaves the store as it was: no event is appended, no document row is
  changed, and nothing is published. This is what a \<open>DELETE\<close> request that the rules check
  admits gets.
\<close>

theorem C10_delete_missing:
  assumes "select_doc s i = None"
  shows "delete_handler s rnd i x = (\<lparr>status = 204, body_version = None\<rparr>, s, []) \<and>
         (security_check ev c (c @ ''/'' @ i) a \<longrightarrow>
            fetch ev s a rnd (Delete_req c i x) = (\<lparr>status = 204, body_version = None\<rparr>, s, []))"
  using assms by (simp add: delete_handler_def respond_def)

theorem C10_delete_missing_witness:
  "select_doc store_a ''zz'' = None \<and>
   security_check ev_throw ''items'' (''items'' @ ''/'' @ ''zz'') alice \<and>
   fetch ev_throw store_a alice rnd_fixed (Delete_req ''items'' ''zz'' None) =
     (\<lparr>status = 204, body_version = None\<rparr>, store_a, [])"
proof -
  have h: "select_doc store_a ''zz'' = None"
    by (simp add: select_doc_def store_a_def doc_a_def)
  have g: "security_check ev_throw ''items'' (''items'' @ ''/'' @ ''zz'') alice" by code_simp
  from C10_delete_missing [OF h, of rnd_fixed None ev_throw "''items''" alice] g h
  show ?thesis by blast
qed

text \<open>
  C1. The claim: a batch either applies every operation and appends every event, or
  changes nothing; in particular an \<open>UPDATE\<close> of a document id that does not exist makes
  the whole batch fail and leaves the documents of the earlier operations unchanged.
  The batch endpoint run on scenario S3 (the id \<open>c\<close> is not in the store): the response
  is 200, the documents \<open>a\<close> and \<open>b\<close> have been written, and an event for \<open>c\<close> has been
  appended although there is no document \<open>c\<close>, before or after.
\<close>

theorem C1_batch_update_of_missing_id_commits:
  "select_doc empty_store ''c'' = None \<and>
   status (fst after_s3) = 200 \<and>
   map d_id (documents (fst (snd after_s3))) = [''a'', ''b''] \<and>
   map e_doc_id (events (fst (snd after_s3))) = [''a'', ''b'', ''c''] \<and>
   select_doc (fst (snd after_s3)) ''c'' = None"
  by code_simp

text \<open>
  C4. The claim: every \<open>UPDATE\<close>, through \<open>PATCH\<close> and inside a batch, stores
  \<open>merge(d, p)\<close>. On the document \<open>a\<close> with data \<open>{name: "a", value: 1}\<close> and the patch
  \<open>{value: 2}\<close>, the merge is \<open>{name: "a", value: 2}\<close>, and that is what \<open>PATCH\<close> stores; the
  \<open>UPDATE\<close> of a batch stores the patch itself, \<open>{value: 2}\<close>, and the key \<open>name\<close> is lost.
\<close>

theorem C4_batch_update_overwrites:
  "select_doc store_a ''a'' = Some doc_a \<and>
   d_data doc_a = JObj [(''name'', JStr ''a''), (''value'', JNum 1)] \<and>
   json_patch (d_data doc_a) patch_value_2 = JObj [(''name'', JStr ''a''), (''value'', JNum 2)] \<and>
   status (fst after_patch_a) = 200 \<and>
   map_option d_data (select_doc (fst (snd after_patch_a)) ''a'') =
     Some (JObj [(''name'', JStr ''a''), (''value'', JNum 2)]) \<and>
   status (fst after_batch_update_a) = 200 \<and>
   map_option d_data (select_doc (fst (snd after_batch_update_a)) ''a'') =
     Some (JObj [(''value'', JNum 2)])"
  by code_simp

text \<open>
  C5. The claim: every publication carries the version of the event appended for its
  own operation. The batch that updates \<open>a\<close> and then \<open>b\<close> on a store with two events
  appends the event 3 for \<open>a\<close> and the event 4 for \<open>b\<close>; all four publications, the two
  for \<open>a\<close> included, carry the version 4.
\<close>

theorem C5_batch_publications_carry_last_version:
  "status (fst after_ab) = 200 \<and>
   map e_doc_id (drop 2 (events (fst (snd after_ab)))) = [''a'', ''b''] \<and>
   map e_version (drop 2 (events (fst (snd after_ab)))) = [3, 4] \<and>
   map channel (snd (snd after_ab)) =
     [''collection:items'', ''path:items_a'', ''collection:items'', ''path:items_b''] \<and>
   map p_id (map payload (snd (snd after_ab))) = [Some ''a'', Some ''a'', Some ''b'', Some ''b''] \<and>
   map p_version (map payload (snd (snd after_ab))) = [Some 4, Some 4, Some 4, Some 4]"
  by code_simp

text \<open>
  C2. The claim: after any sequence of successful create, set, update, delete or batch
  requests, every document's version is the version of the latest event appended for
  that document in its workspace. Two \<open>PUT\<close>s of the id \<open>x\<close> on the empty store, the first
  from a client of the workspace \<open>w1\<close> and the second from a client of the workspace \<open>w2\<close>,
  both succeed. The handler finds the document by its id and writes the second event
  under the request's workspace: the document stays in \<open>w1\<close> and has the version 2,
  while the latest event for \<open>x\<close> in \<open>w1\<close> has the version 1. The \<open>DELETE\<close> handler, run on
  that store, writes its event under the document's own workspace \<open>w1\<close>.
\<close>

theorem C2_put_from_other_workspace:
  "run ev_throw empty_store two_workspaces = Some store_x \<and>
   documents store_x = [doc_x] \<and>
   d_workspace_id doc_x = ''w1'' \<and>
   d_version doc_x = 2 \<and>
   map e_doc_id (events store_x) = [''x'', ''x''] \<and>
   map e_version (events store_x) = [1, 2] \<and>
   map e_workspace_id (events store_x) = [''w1'', ''w2''] \<and>
   latest_event_version_in (events store_x) (d_workspace_id doc_x) (d_id doc_x) = Some 1 \<and>
   status (fst after_delete_x) = 204 \<and>
   map e_workspace_id (events (fst (snd after_delete_x))) = [''w1'', ''w2'', ''w1'']"
  by code_simp

text \<open>
  C8. The claim: a snapshot has \<open>hasPendingWrites = true\<close> exactly when its value comes
  from a queued, unsynced write or the cached version is the sentinel \<open>-1\<close>; a
  cache-fallback read of a document cached at a server version, with no queued write,
  must report \<open>false\<close>. The client reads \<open>items/a\<close> online (the cache then holds it at
  version 7 and the queue is empty) and reads it again with the network down: the
  snapshot comes from the cache with version 7 and \<open>hasPendingWrites = true\<close>.
\<close>

theorem C8_cache_fallback_reports_pending:
  "persistence client_after_read =
     Some \<lparr>cache_documents = [(''items/a'', \<lparr>cached_data = JObj [(''n'', JNum 5)], cached_version = 7\<rparr>)],
            cache_queue = []\<rparr> \<and>
   offline_read =
     Inr \<lparr>snap_id = ''a'', snap_path = ''items/a'', snap_data = Some (JObj [(''n'', JNum 5)]),
           snap_version = 7, snap_metadata = \<lparr>fromCache = True, hasPendingWrites = True\<rparr>\<rparr>"
  by code_simp

text \<open>
  C6. The claim: for every payload and every filter list over the supported operators,
  the local matcher accepts the document exactly when the compiled query returns it.
  The query handler skips a filter whose field is not made of letters, digits and dots;
  the matcher applies it. For the filter \<open>first_name == "bob"\<close> and the payload
  \<open>{first_name: "alice"}\<close> the compiled query has no clause and returns the document,
  and the matcher rejects it.
\<close>

theorem C6_dropped_filter_counterexample:
  "matches [filter_first_name] payload_alice = False \<and>
   server_returns [filter_first_name] payload_alice = True"
  by code_simp

text \<open>
  C6, amended. For every object payload and every filter list whose filters are in the
  fragment for that payload, the local matcher accepts the payload exactly when every
  clause of the compiled query is true on it. The fragment (\<open>in_fragment\<close>): the field is
  made of letters and digits and is not the name of an inherited property; the operator
  is not \<open>LIKE\<close>; for \<open>==\<close> the member is missing or the two equalities do not differ on
  the member and the value (they differ on \<open>null\<close> with \<open>null\<close>, on a boolean with the number
  1 or 0 that stands for it, and on an array or object with the string that is its JSON
  text); for \<open>!=\<close> the member is present and both are \<open>null\<close>, or neither is, the value is
  no array or object and the equalities do not differ on them; for \<open><\<close>, \<open><=\<close>, \<open>>\<close>, \<open>>=\<close>
  the member is missing, or both are booleans or numbers, or both are ASCII strings; for
  \<open>in\<close> and \<open>array-contains\<close> the conditions listed at \<open>in_fragment\<close>.
\<close>

theorem C6_matcher_agrees_on_fragment:
  assumes "\<forall>f\<in>set fs. in_fragment f d"
  shows "matches fs d = server_returns fs d"
  using assms
proof (induction fs)
  case Nil
  show ?case by (simp add: server_returns_def)
next
  case (Cons f fs)
  then have "in_fragment f d" and rest: "matches fs d = server_returns fs d" by simp_all
  from fragment_filter [OF this(1)] obtain c where
    "compile_filter f = Some c" "(eval_cond c (JObj d) = Inr (Some True)) = passes f d"
    by blast
  with rest show ?case by (auto simp: server_returns_def)
qed

theorem C6_matcher_agrees_on_fragment_witness:
  "list_all (\<lambda>f. in_fragment f payload_adult) filters_adults \<and>
   matches filters_adults payload_adult = server_returns filters_adults payload_adult \<and>
   matches filters_adults payload_adult = True \<and>
   list_all (\<lambda>f. in_fragment f payload_minor) filters_adults \<and>
   matches filters_adults payload_minor = server_returns filters_adults payload_minor \<and>
   matches filters_adults payload_minor = False \<and>
   list_all (\<lambda>f. in_fragment f payload_task) filters_tasks \<and>
   matches filters_tasks payload_task = server_returns filters_tasks payload_task \<and>
   matches filters_tasks payload_task = True"
proof -
  have l1: "list_all (\<lambda>f. in_fragment f payload_adult) filters_adults" by code_simp
  then have h1: "\<forall>f\<in>set filters_adults. in_fragment f payload_adult" by (simp only: list_all_iff)
  have m1: "matches filters_adults payload_adult = True" by code_simp
  have l2: "list_all (\<lambda>f. in_fragment f payload_minor) filters_adults" by code_simp
  then have h2: "\<forall>f\<in>set filters_adults. in_fragment f payload_minor" by (simp only: list_all_iff)
  have m2: "matches filters_adults payload_minor = False" by code_simp
  have l3: "list_all (\<lambda>f. in_fragment f payload_task) filters_tasks" by code_simp
  then have h3: "\<forall>f\<in>set filters_tasks. in_fragment f payload_task" by (simp only: list_all_iff)
  have m3: "matches filters_tasks payload_task = True" by code_simp
  from l1 m1 l2 m2 l3 m3 C6_matcher_agrees_on_fragment [OF h1] C6_matcher_agrees_on_fragment [OF h2]
    C6_matcher_agrees_on_fragment [OF h3]
  show ?thesis by blast
qed

end
